theory Spec2Isabelle
  imports Complex_Main
begin

section \<open>Fine calculation and fine ledger of the library portal\<close>

text \<open>
  The development embeds \<^verbatim>\<open>server/services/fineService.js\<close> together with the parts of
  the Borrow, Fine, User and SystemConfig models and of
  \<^verbatim>\<open>server/services/notificationService.js\<close> that it calls.

  Conventions of the embedding.
  \<^item> A JavaScript number is an exact rational (\<^typ>\<open>rat\<close>); the rounding error of
    IEEE doubles is not modelled. \<^verbatim>\<open>Math.round\<close> rounds half up.
  \<^item> A date is its number of milliseconds since the epoch (\<^typ>\<open>int\<close>). The clock is an
    argument \<open>now\<close> of every operation; \<^verbatim>\<open>moment().diff(d, unit)\<close> truncates the
    quotient toward zero, and time-zone shifts are not modelled.
  \<^item> A collection of documents is a list, and the \<^verbatim>\<open>_id\<close> of a document is its
    position in the list: \<^verbatim>\<open>create\<close> appends, documents are never deleted.
  \<^item> The policy values of SystemConfig are numbers, the rate type is a string; every
    loan carries a due date.
  \<^item> A thrown exception is \<open>Inl\<close> of an \<open>error\<close>. An operation that writes to the
    store returns the store as well, also when it throws, because the source does not
    roll anything back.
\<close>

subsection \<open>Numbers and dates\<close>

definition trunc_div :: "int \<Rightarrow> int \<Rightarrow> int" where
  "trunc_div a b = (if a < 0 then - ((- a) div b) else a div b)"

definition diff_days :: "int \<Rightarrow> int \<Rightarrow> int" where
  "diff_days this that = trunc_div (this - that) 86400000"

definition diff_hours :: "int \<Rightarrow> int \<Rightarrow> int" where
  "diff_hours this that = trunc_div (this - that) 3600000"

definition add_days :: "int \<Rightarrow> int \<Rightarrow> int" where
  "add_days t n = t + n * 86400000"

definition Math_round :: "rat \<Rightarrow> int" where
  "Math_round x = \<lfloor>x + 1 / 2\<rfloor>"

definition round2 :: "rat \<Rightarrow> rat" where
  \<comment> \<open>\<^verbatim>\<open>Math.round(x * 100) / 100\<close>\<close>
  "round2 x = of_int (Math_round (x * 100)) / 100"

subsection \<open>Documents\<close>

datatype error =
    Error string
  | TypeError
  | ValidationError
  | StrictPopulateError
  | DeliveryError

datatype borrow_type = Reservation | Borrowed | Returned | OverdueType | LostType

datatype borrow_status = Active | Completed | Cancelled | OverdueStatus

record borrow =
  borrow_user :: nat
  borrow_book :: nat
  borrow_type :: borrow_type
  borrow_status :: borrow_status
  borrow_dueDate :: int
  issuedBy :: nat
  isLost :: bool
  lostAt :: "int option"

datatype fine_type = Overdue | Lost | Damaged | ReservationExpired

datatype fine_status = Pending | Paid | Waived | CancelledFine

record fine =
  fine_id :: nat
  fine_user :: nat
  fine_borrow :: nat
  amount :: rat
  fine_type :: fine_type
  fine_status :: fine_status
  fine_dueDate :: int
  paidAt :: "int option"
  paidBy :: "nat option"
  waivedBy :: "nat option"
  waivedAt :: "int option"
  waiverReason :: "string option"
  baseAmount :: rat
  rateType :: string
  rate :: rat
  fine_gracePeriod :: rat
  fine_overdueDays :: int
  bookValue :: rat
  replacementCost :: rat

record user =
  user_name :: string
  phone :: string
  email :: string
  fineBalance :: rat

record book =
  title :: string
  price :: rat

text \<open>
  The SystemConfig collection, read through \<^verbatim>\<open>SystemConfig.getValue(key, default)\<close>:
  a key that is absent yields the default.
\<close>

record sysconfig =
  grace_period_days :: "rat option"
  fine_daily_rate :: "rat option"
  fine_hourly_rate :: "rat option"
  fine_rate_type :: "string option"
  max_fine_amount :: "rat option"

definition getValue :: "'a option \<Rightarrow> 'a \<Rightarrow> 'a" where
  "getValue entry defaultValue = (case entry of Some v \<Rightarrow> v | None \<Rightarrow> defaultValue)"

record db =
  borrows :: "borrow list"
  fines :: "fine list"
  users :: "nat \<rightharpoonup> user"
  books :: "nat \<rightharpoonup> book"
  config :: sysconfig

definition Borrow_findById :: "db \<Rightarrow> nat \<Rightarrow> borrow option" where
  "Borrow_findById s i = (if i < length (borrows s) then Some (borrows s ! i) else None)"

definition Fine_findById :: "db \<Rightarrow> nat \<Rightarrow> fine option" where
  "Fine_findById s i = (if i < length (fines s) then Some (fines s ! i) else None)"

definition Fine_findOne :: "db \<Rightarrow> nat \<Rightarrow> fine_type \<Rightarrow> fine option" where
  \<comment> \<open>\<^verbatim>\<open>Fine.findOne({ borrow, type })\<close>\<close>
  "Fine_findOne s borrowId t =
     find (\<lambda>f. fine_borrow f = borrowId \<and> fine_type f = t) (fines s)"

definition Fine_find :: "db \<Rightarrow> nat \<Rightarrow> fine_type \<Rightarrow> fine list" where
  \<comment> \<open>all the documents that match \<^verbatim>\<open>{ borrow, type }\<close>, of which
      \<^verbatim>\<open>Fine.findOne\<close> returns the first\<close>
  "Fine_find s borrowId t =
     filter (\<lambda>f. fine_borrow f = borrowId \<and> fine_type f = t) (fines s)"

subsection \<open>The fine service: configuration defaults\<close>

record default_config =
  gracePeriod :: rat
  dailyRate :: rat
  hourlyRate :: rat
  maxFine :: rat
  lostBookMultiplier :: rat

definition defaultConfig :: default_config where
  "defaultConfig =
     \<lparr>gracePeriod = 2, dailyRate = 50, hourlyRate = 5, maxFine = 2000,
      lostBookMultiplier = 2\<rparr>"

subsection \<open>calculateOverdueFine\<close>

record fine_calc =
  fineAmount :: rat
  gracePeriodUsed :: bool
  overdueDays :: "int option"
  calc_rateType :: "string option"
  calc_dailyRate :: "rat option"
  calc_hourlyRate :: "rat option"

definition invalid_borrow :: error where
  "invalid_borrow = Error ''Invalid borrow record or already completed''"

text \<open>The four \<^verbatim>\<open>SystemConfig.getValue\<close> reads of the calculation, with their defaults.\<close>

definition cfg_gracePeriod :: "db \<Rightarrow> rat" where
  "cfg_gracePeriod s = getValue (grace_period_days (config s)) (gracePeriod defaultConfig)"

definition cfg_dailyRate :: "db \<Rightarrow> rat" where
  "cfg_dailyRate s = getValue (fine_daily_rate (config s)) (dailyRate defaultConfig)"

definition cfg_hourlyRate :: "db \<Rightarrow> rat" where
  "cfg_hourlyRate s = getValue (fine_hourly_rate (config s)) (hourlyRate defaultConfig)"

definition cfg_rateType :: "db \<Rightarrow> string" where
  "cfg_rateType s = getValue (fine_rate_type (config s)) ''per_day''"

definition cfg_maxFine :: "db \<Rightarrow> rat" where
  "cfg_maxFine s = getValue (max_fine_amount (config s)) (maxFine defaultConfig)"

definition raw_amount :: "db \<Rightarrow> int \<Rightarrow> int \<Rightarrow> rat" where
  \<comment> \<open>the amount before the cap, from the overdue days and the overdue hours\<close>
  "raw_amount s days hours =
     (if cfg_rateType s = ''per_hour''
      then max 0 (of_int hours - cfg_gracePeriod s * 24) * cfg_hourlyRate s
      else max 0 (of_int days - cfg_gracePeriod s) * cfg_dailyRate s)"

definition calculateOverdueFine :: "db \<Rightarrow> int \<Rightarrow> nat \<Rightarrow> error + fine_calc" where
  "calculateOverdueFine s now borrowId =
     (case Borrow_findById s borrowId of
        None \<Rightarrow> Inl invalid_borrow
      | Some b \<Rightarrow>
          if borrow_status b = Completed then Inl invalid_borrow
          else
            let days = diff_days now (borrow_dueDate b)
            in if of_int days \<le> cfg_gracePeriod s
               then Inr \<lparr>fineAmount = 0, gracePeriodUsed = True, overdueDays = None,
                         calc_rateType = None, calc_dailyRate = None,
                         calc_hourlyRate = None\<rparr>
               else
                 let raw = raw_amount s days (diff_hours now (borrow_dueDate b));
                     capped = min raw (cfg_maxFine s)
                 in Inr \<lparr>fineAmount = round2 capped, gracePeriodUsed = False,
                           overdueDays = Some days, calc_rateType = Some (cfg_rateType s),
                           calc_dailyRate = Some (cfg_dailyRate s),
                           calc_hourlyRate = Some (cfg_hourlyRate s)\<rparr>)"

subsection \<open>The notification service\<close>

text \<open>
  What the outside world does when a notification is sent is an argument of the model:
  whether the database answers the \<^verbatim>\<open>populate\<close> queries of \<^verbatim>\<open>sendFineNotice\<close>,
  whether \<^verbatim>\<open>Notification.create\<close> resolves, whether the SMS gateway and the mail
  transport accept the message, and whether the notification document can be saved
  (\<^verbatim>\<open>markAsSent\<close>, \<^verbatim>\<open>markAsFailed\<close>). The notification documents themselves are
  not kept in the store.
\<close>

record delivery =
  populateOk :: bool
  createOk :: bool
  smsOk :: bool
  emailOk :: bool
  markOk :: bool

datatype channel = SMS | Email | InApp

datatype channel_result = Sent | Queued | Failed | NoResult

definition try_channel :: "delivery \<Rightarrow> user \<Rightarrow> channel \<Rightarrow> channel_result option" where
  \<comment> \<open>the body of the inner \<^verbatim>\<open>try\<close> of \<^verbatim>\<open>sendNotification\<close>; \<open>None\<close> when it throws\<close>
  "try_channel d u c =
     (case c of
        SMS \<Rightarrow> if phone u \<noteq> [] then (if smsOk d \<and> markOk d then Some Sent else None)
               else Some NoResult
      | Email \<Rightarrow> if email u \<noteq> [] then (if emailOk d \<and> markOk d then Some Sent else None)
                 else Some NoResult
      | InApp \<Rightarrow> Some Queued)"

fun send_channels :: "delivery \<Rightarrow> user \<Rightarrow> channel list \<Rightarrow> error + (channel \<times> channel_result) list" where
  "send_channels d u [] = Inr []"
| "send_channels d u (c # cs) =
     (case try_channel d u c of
        Some r \<Rightarrow> (case send_channels d u cs of
                     Inl e \<Rightarrow> Inl e
                   | Inr rs \<Rightarrow> Inr ((c, r) # rs))
      | None \<Rightarrow>
          \<comment> \<open>the inner \<^verbatim>\<open>catch\<close>: \<^verbatim>\<open>markAsFailed\<close>, then the failure is recorded\<close>
          if markOk d
          then (case send_channels d u cs of
                  Inl e \<Rightarrow> Inl e
                | Inr rs \<Rightarrow> Inr ((c, Failed) # rs))
          else Inl DeliveryError)"

definition sendNotification :: "delivery \<Rightarrow> user \<Rightarrow> channel list \<Rightarrow> error + (channel \<times> channel_result) list" where
  "sendNotification d u channels =
     (if createOk d then send_channels d u channels else Inl DeliveryError)"

text \<open>
  \<^verbatim>\<open>sendFineNotice(fine)\<close> calls \<^verbatim>\<open>populate\<close> on documents. In mongoose,
  \<^verbatim>\<open>Document.populate(path)\<close> resolves to the document it was called on, and it rejects
  a path that the schema of the document does not have (\<^verbatim>\<open>strictPopulate\<close>, which is on
  unless a schema or the connection switches it off; the source never does). So
  \<^verbatim>\<open>user\<close>, \<^verbatim>\<open>borrow\<close> and \<^verbatim>\<open>book\<close> of the source are all the fine document,
  the third call populates \<^verbatim>\<open>book\<close> on a fine, and a fine read as a user has no
  name, phone or email.
\<close>

definition fineSchema_paths :: "string list" where
  \<comment> \<open>the paths that \<^verbatim>\<open>fineSchema\<close> declares, and the two of \<^verbatim>\<open>timestamps: true\<close>\<close>
  "fineSchema_paths =
     [''user'', ''borrow'', ''amount'', ''type'', ''status'', ''dueDate'', ''paidAt'',
      ''paidBy'', ''waivedBy'', ''waivedAt'', ''waiverReason'', ''notes'', ''baseAmount'',
      ''rateType'', ''rate'', ''gracePeriod'', ''overdueDays'', ''bookValue'',
      ''replacementCost'', ''createdAt'', ''updatedAt'']"

definition Fine_populate :: "delivery \<Rightarrow> fine \<Rightarrow> string \<Rightarrow> error + fine" where
  \<comment> \<open>\<^verbatim>\<open>fine.populate(path)\<close>\<close>
  "Fine_populate d doc path =
     (if path \<notin> set fineSchema_paths then Inl StrictPopulateError
      else if populateOk d then Inr doc
      else Inl DeliveryError)"

definition fine_as_user :: "fine \<Rightarrow> user" where
  \<comment> \<open>what \<^verbatim>\<open>user.name\<close>, \<^verbatim>\<open>user.phone\<close> and \<^verbatim>\<open>user.email\<close> read on a fine document:
      undefined, which is falsy like the empty string\<close>
  "fine_as_user doc = \<lparr>user_name = [], phone = [], email = [], fineBalance = 0\<rparr>"

definition sendFineNotice :: "delivery \<Rightarrow> fine \<Rightarrow> error + (channel \<times> channel_result) list" where
  "sendFineNotice d doc =
     (case Fine_populate d doc ''user'' of
        Inl e \<Rightarrow> Inl e
      | Inr user \<Rightarrow>
         (case Fine_populate d doc ''borrow'' of
            Inl e \<Rightarrow> Inl e
          | Inr borrow \<Rightarrow>
             (case Fine_populate d borrow ''book'' of
                Inl e \<Rightarrow> Inl e
              | Inr book \<Rightarrow> sendNotification d (fine_as_user user) [SMS, Email])))"

subsection \<open>The fine ledger\<close>

definition Fine_valid :: "fine \<Rightarrow> bool" where
  \<comment> \<open>the validators of the Fine schema that a computed value can fail:
      \<^verbatim>\<open>amount: { min: 0 }\<close> and the \<^verbatim>\<open>enum\<close> of \<^verbatim>\<open>rateType\<close>\<close>
  "Fine_valid f \<longleftrightarrow>
     0 \<le> amount f \<and> rateType f \<in> set [''per_hour'', ''per_day'', ''fixed'']"

definition Fine_create :: "db \<Rightarrow> fine \<Rightarrow> error + (fine \<times> db)" where
  "Fine_create s f =
     (if Fine_valid f
      then (let doc = f\<lparr>fine_id := length (fines s)\<rparr>
            in Inr (doc, s\<lparr>fines := fines s @ [doc]\<rparr>))
      else Inl ValidationError)"

definition Fine_save :: "db \<Rightarrow> nat \<Rightarrow> fine \<Rightarrow> db" where
  \<comment> \<open>\<^verbatim>\<open>this.save()\<close> on the document that \<^verbatim>\<open>findById(i)\<close> returned\<close>
  "Fine_save s i f = s\<lparr>fines := (fines s)[i := f]\<rparr>"

definition User_inc_fineBalance :: "db \<Rightarrow> nat \<Rightarrow> rat \<Rightarrow> db" where
  \<comment> \<open>\<^verbatim>\<open>User.findByIdAndUpdate(id, { $inc: { fineBalance: delta } })\<close>\<close>
  "User_inc_fineBalance s uid delta =
     (case users s uid of
        None \<Rightarrow> s
      | Some u \<Rightarrow> s\<lparr>users := (users s)(uid \<mapsto> u\<lparr>fineBalance := fineBalance u + delta\<rparr>)\<rparr>)"

definition NotFound :: error where
  "NotFound = Error ''Borrow record not found''"

definition DuplicateFine :: error where
  "DuplicateFine = Error ''Fine already exists for this borrow''"

definition DuplicateLostFine :: error where
  "DuplicateLostFine = Error ''Fine already exists for this lost book''"

definition FineNotFound :: error where
  "FineNotFound = Error ''Fine not found''"

definition AlreadyPaid :: error where
  "AlreadyPaid = Error ''Fine is already paid''"

definition CannotWaivePaid :: error where
  "CannotWaivePaid = Error ''Cannot waive already paid fine''"

definition new_fine :: "nat \<Rightarrow> nat \<Rightarrow> rat \<Rightarrow> fine_type \<Rightarrow> int \<Rightarrow> fine" where
  \<comment> \<open>a Fine document with the schema's defaults in every field that the caller
      of \<^verbatim>\<open>Fine.create\<close> may leave out\<close>
  "new_fine uid borrowId amt t due =
     \<lparr>fine_id = 0, fine_user = uid, fine_borrow = borrowId, amount = amt, fine_type = t,
      fine_status = Pending, fine_dueDate = due, paidAt = None, paidBy = None,
      waivedBy = None, waivedAt = None, waiverReason = None, baseAmount = amt,
      rateType = ''per_day'', rate = 50, fine_gracePeriod = 0, fine_overdueDays = 0,
      bookValue = 0, replacementCost = 0\<rparr>"

definition overdue_fine_data :: "db \<Rightarrow> int \<Rightarrow> nat \<Rightarrow> borrow \<Rightarrow> fine_calc \<Rightarrow> fine" where
  \<comment> \<open>the object that \<^verbatim>\<open>createOverdueFine\<close> passes to \<^verbatim>\<open>Fine.create\<close>\<close>
  "overdue_fine_data s now borrowId b fineCalculation =
     (let rt = getValue (calc_rateType fineCalculation) ''per_day''
      in (new_fine (borrow_user b) borrowId (fineAmount fineCalculation) Overdue
            (add_days now 7))
         \<lparr>rateType := rt,
          rate := (if rt = ''per_hour''
                   then getValue (calc_hourlyRate fineCalculation) 0
                   else getValue (calc_dailyRate fineCalculation) 0),
          fine_gracePeriod := cfg_gracePeriod s,
          fine_overdueDays := getValue (overdueDays fineCalculation) 0\<rparr>)"

definition createOverdueFine :: "delivery \<Rightarrow> int \<Rightarrow> db \<Rightarrow> nat \<Rightarrow> (error + fine option) \<times> db" where
  "createOverdueFine d now s borrowId =
     (case Borrow_findById s borrowId of
        None \<Rightarrow> (Inl NotFound, s)
      | Some b \<Rightarrow>
         (case Fine_findOne s borrowId Overdue of
            Some existingFine \<Rightarrow> (Inl DuplicateFine, s)
          | None \<Rightarrow>
             (case calculateOverdueFine s now borrowId of
                Inl e \<Rightarrow> (Inl e, s)
              | Inr fineCalculation \<Rightarrow>
                 if fineAmount fineCalculation = 0 then (Inr None, s)
                 else
                   (case users s (borrow_user b) of
                      None \<Rightarrow> (Inl TypeError, s)
                    | Some u \<Rightarrow>
                       (case Fine_create s
                               (overdue_fine_data s now borrowId b fineCalculation) of
                          Inl e \<Rightarrow> (Inl e, s)
                        | Inr (doc, s1) \<Rightarrow>
                           let s2 = User_inc_fineBalance s1 (borrow_user b)
                                      (fineAmount fineCalculation)
                           in (case sendFineNotice d doc of
                                 Inl e \<Rightarrow> (Inl e, s2)
                               | Inr r \<Rightarrow> (Inr (Some doc), s2)))))))"

definition Borrow_markLost :: "db \<Rightarrow> nat \<Rightarrow> int \<Rightarrow> db" where
  \<comment> \<open>\<^verbatim>\<open>Borrow.findByIdAndUpdate(id, { isLost: true, lostAt: new Date(), status: 'completed' })\<close>\<close>
  "Borrow_markLost s i now =
     (if i < length (borrows s)
      then s\<lparr>borrows := (borrows s)[i := (borrows s ! i)
                  \<lparr>isLost := True, lostAt := Some now, borrow_status := Completed\<rparr>]\<rparr>
      else s)"

definition lost_book_value :: "db \<Rightarrow> borrow \<Rightarrow> rat option \<Rightarrow> rat option" where
  \<comment> \<open>\<^verbatim>\<open>replacementCost || borrow.book.price\<close>: the book is read only when the
      argument is null or zero; \<open>None\<close> when the read hits a missing book\<close>
  "lost_book_value s b replCost =
     (case replCost of
        Some c \<Rightarrow> if c \<noteq> 0 then Some c else map_option price (books s (borrow_book b))
      | None \<Rightarrow> map_option price (books s (borrow_book b)))"

definition lost_fine_data :: "int \<Rightarrow> nat \<Rightarrow> borrow \<Rightarrow> rat \<Rightarrow> rat \<Rightarrow> fine" where
  \<comment> \<open>the object that \<^verbatim>\<open>createLostBookFine\<close> passes to \<^verbatim>\<open>Fine.create\<close>\<close>
  "lost_fine_data now borrowId b value fineAmt =
     (new_fine (borrow_user b) borrowId fineAmt Lost (add_days now 14))
     \<lparr>rateType := ''fixed'', rate := 0, bookValue := value, replacementCost := fineAmt\<rparr>"

definition createLostBookFine ::
  "delivery \<Rightarrow> int \<Rightarrow> db \<Rightarrow> nat \<Rightarrow> rat option \<Rightarrow> (error + fine) \<times> db" where
  "createLostBookFine d now s borrowId replCost =
     (case Borrow_findById s borrowId of
        None \<Rightarrow> (Inl NotFound, s)
      | Some b \<Rightarrow>
         (case Fine_findOne s borrowId Lost of
            Some existingFine \<Rightarrow> (Inl DuplicateLostFine, s)
          | None \<Rightarrow>
             (case lost_book_value s b replCost of
                None \<Rightarrow> (Inl TypeError, s)
              | Some value \<Rightarrow>
                 let fineAmt = value * lostBookMultiplier defaultConfig
                 in (case users s (borrow_user b) of
                       None \<Rightarrow> (Inl TypeError, s)
                     | Some u \<Rightarrow>
                        (case Fine_create s (lost_fine_data now borrowId b value fineAmt) of
                           Inl e \<Rightarrow> (Inl e, s)
                         | Inr (doc, s1) \<Rightarrow>
                            let s2 = Borrow_markLost s1 borrowId now;
                                s3 = User_inc_fineBalance s2 (borrow_user b) fineAmt
                            in (case sendFineNotice d doc of
                                  Inl e \<Rightarrow> (Inl e, s3)
                                | Inr r \<Rightarrow> (Inr doc, s3)))))))"

definition markAsPaid :: "fine \<Rightarrow> int \<Rightarrow> nat \<Rightarrow> fine" where
  "markAsPaid f now by = f\<lparr>fine_status := Paid, paidAt := Some now, paidBy := Some by\<rparr>"

definition waiveFine_method :: "fine \<Rightarrow> int \<Rightarrow> nat \<Rightarrow> string \<Rightarrow> fine" where
  \<comment> \<open>\<^verbatim>\<open>fineSchema.methods.waiveFine\<close>\<close>
  "waiveFine_method f now by reason =
     f\<lparr>fine_status := Waived, waivedAt := Some now, waivedBy := Some by,
       waiverReason := Some reason\<rparr>"

definition payFine :: "delivery \<Rightarrow> int \<Rightarrow> db \<Rightarrow> nat \<Rightarrow> nat \<Rightarrow> (error + fine) \<times> db" where
  "payFine d now s fineId by =
     (case Fine_findById s fineId of
        None \<Rightarrow> (Inl FineNotFound, s)
      | Some f \<Rightarrow>
         if fine_status f = Paid then (Inl AlreadyPaid, s)
         else
           let f1 = markAsPaid f now by;
               s1 = Fine_save s fineId f1
           in (case users s (fine_user f) of
                 None \<Rightarrow> (Inl TypeError, s1)
               | Some u \<Rightarrow>
                  let s2 = User_inc_fineBalance s1 (fine_user f) (- amount f1)
                  in (case sendNotification d u [Email] of
                        Inl e \<Rightarrow> (Inl e, s2)
                      | Inr r \<Rightarrow> (Inr f1, s2))))"

definition waiveFine ::
  "delivery \<Rightarrow> int \<Rightarrow> db \<Rightarrow> nat \<Rightarrow> nat \<Rightarrow> string \<Rightarrow> (error + fine) \<times> db" where
  "waiveFine d now s fineId by reason =
     (case Fine_findById s fineId of
        None \<Rightarrow> (Inl FineNotFound, s)
      | Some f \<Rightarrow>
         if fine_status f = Paid then (Inl CannotWaivePaid, s)
         else
           let f1 = waiveFine_method f now by reason;
               s1 = Fine_save s fineId f1
           in (case users s (fine_user f) of
                 None \<Rightarrow> (Inl TypeError, s1)
               | Some u \<Rightarrow>
                  let s2 = User_inc_fineBalance s1 (fine_user f) (- amount f1)
                  in (case sendNotification d u [Email] of
                        Inl e \<Rightarrow> (Inl e, s2)
                      | Inr r \<Rightarrow> (Inr f1, s2))))"

subsection \<open>The overdue sweep\<close>

definition Borrow_find_overdue :: "db \<Rightarrow> int \<Rightarrow> nat list" where
  \<comment> \<open>\<^verbatim>\<open>Borrow.find({ status: 'active', dueDate: { $lt: new Date() }, type: 'borrowed' })\<close>,
      as the list of the ids found\<close>
  "Borrow_find_overdue s now =
     filter (\<lambda>i. borrow_status (borrows s ! i) = Active
                \<and> borrow_dueDate (borrows s ! i) < now
                \<and> borrow_type (borrows s ! i) = Borrowed)
       [0 ..< length (borrows s)]"

text \<open>
  The loop of \<^verbatim>\<open>processOverdueFines\<close>. Each loan has its own delivery outcome
  (\<open>ds\<close> maps the loan to it). An exception of \<^verbatim>\<open>createOverdueFine\<close> is caught and
  logged: the count is not incremented, what was written stays written.
\<close>

fun sweep_loop :: "(nat \<Rightarrow> delivery) \<Rightarrow> int \<Rightarrow> nat list \<Rightarrow> nat \<Rightarrow> db \<Rightarrow> nat \<times> db" where
  "sweep_loop ds now [] processedCount s = (processedCount, s)"
| "sweep_loop ds now (i # rest) processedCount s =
     (case Fine_findOne s i Overdue of
        Some existingFine \<Rightarrow> sweep_loop ds now rest processedCount s
      | None \<Rightarrow>
         (case createOverdueFine (ds i) now s i of
            (Inl e, s1) \<Rightarrow> sweep_loop ds now rest processedCount s1
          | (Inr r, s1) \<Rightarrow> sweep_loop ds now rest (processedCount + 1) s1))"

record sweep_result =
  processedCount :: nat
  totalOverdue :: nat

definition processOverdueFines :: "(nat \<Rightarrow> delivery) \<Rightarrow> int \<Rightarrow> db \<Rightarrow> sweep_result \<times> db" where
  "processOverdueFines ds now s =
     (let overdueBorrows = Borrow_find_overdue s now;
          (n, s1) = sweep_loop ds now overdueBorrows 0 s
      in (\<lparr>processedCount = n, totalOverdue = length overdueBorrows\<rparr>, s1))"

subsection \<open>Sequences of ledger operations\<close>

text \<open>
  The public operations of the service that write to the store, as data, so that a
  property can be stated for every sequence of calls.
\<close>

datatype ledger_op =
    CreateOverdueFine delivery int nat
  | CreateLostBookFine delivery int nat "rat option"
  | PayFine delivery int nat nat
  | WaiveFine delivery int nat nat string
  | ProcessOverdueFines "nat \<Rightarrow> delivery" int

fun apply_op :: "db \<Rightarrow> ledger_op \<Rightarrow> db" where
  "apply_op s (CreateOverdueFine d now i) = snd (createOverdueFine d now s i)"
| "apply_op s (CreateLostBookFine d now i c) = snd (createLostBookFine d now s i c)"
| "apply_op s (PayFine d now k by) = snd (payFine d now s k by)"
| "apply_op s (WaiveFine d now k by reason) = snd (waiveFine d now s k by reason)"
| "apply_op s (ProcessOverdueFines ds now) = snd (processOverdueFines ds now s)"

fun run_ops :: "db \<Rightarrow> ledger_op list \<Rightarrow> db" where
  "run_ops s [] = s"
| "run_ops s (x # xs) = run_ops (apply_op s x) xs"

subsection \<open>Example stores\<close>

definition jan_2024 :: "int \<Rightarrow> int" where
  \<comment> \<open>00:00 UTC on the given day of January 2024, in milliseconds\<close>
  "jan_2024 n = 1704067200000 + (n - 1) * 86400000"

definition loan0 :: borrow where
  "loan0 =
     \<lparr>borrow_user = 0, borrow_book = 0, borrow_type = Borrowed, borrow_status = Active,
      borrow_dueDate = jan_2024 1, issuedBy = 1, isLost = False, lostAt = None\<rparr>"

definition member0 :: user where
  "member0 =
     \<lparr>user_name = ''Amina'', phone = ''0700000001'', email = ''amina@example.org'',
      fineBalance = 0\<rparr>"

definition no_config :: sysconfig where
  "no_config =
     \<lparr>grace_period_days = None, fine_daily_rate = None, fine_hourly_rate = None,
      fine_rate_type = None, max_fine_amount = None\<rparr>"

definition db0 :: db where
  \<comment> \<open>one active loan due 2024-01-01, no fine, the default policy\<close>
  "db0 =
     \<lparr>borrows = [loan0], fines = [], users = [0 \<mapsto> member0],
      books = [0 \<mapsto> \<lparr>title = ''Kifo Kisimani'', price = 1000\<rparr>], config = no_config\<rparr>"



definition all_ok :: delivery where
  "all_ok =
     \<lparr>populateOk = True, createOk = True, smsOk = True, emailOk = True, markOk = True\<rparr>"

definition always_ok :: "nat \<Rightarrow> delivery" where
  "always_ok i = all_ok"

definition no_populate :: delivery where
  \<comment> \<open>the database does not answer a \<^verbatim>\<open>populate\<close> query\<close>
  "no_populate = all_ok\<lparr>populateOk := False\<rparr>"

definition no_gateway :: delivery where
  \<comment> \<open>the SMS gateway and the mail transport reject every message\<close>
  "no_gateway = all_ok\<lparr>smsOk := False, emailOk := False\<rparr>"

definition fine0 :: fine where
  \<comment> \<open>the fine that \<^verbatim>\<open>createOverdueFine\<close> creates for \<open>loan0\<close> on 2024-01-05\<close>
  "fine0 =
     \<lparr>fine_id = 0, fine_user = 0, fine_borrow = 0, amount = 100, fine_type = Overdue,
      fine_status = Pending, fine_dueDate = jan_2024 12, paidAt = None, paidBy = None,
      waivedBy = None, waivedAt = None, waiverReason = None, baseAmount = 100,
      rateType = ''per_day'', rate = 50, fine_gracePeriod = 2, fine_overdueDays = 4,
      bookValue = 0, replacementCost = 0\<rparr>"

definition db1 :: db where
  \<comment> \<open>\<open>db0\<close> after that fine has been created\<close>
  "db1 = db0\<lparr>fines := [fine0], users := [0 \<mapsto> member0\<lparr>fineBalance := 100\<rparr>]\<rparr>"

definition db_paid :: db where
  \<comment> \<open>\<open>db1\<close> after the fine has been paid on 2024-01-06 to staff member 7\<close>
  "db_paid = db1\<lparr>fines := [markAsPaid fine0 (jan_2024 6) 7], users := [0 \<mapsto> member0]\<rparr>"

definition db_waived :: db where
  \<comment> \<open>\<open>db1\<close> after the fine has been waived on 2024-01-06 by staff member 7\<close>
  "db_waived =
     db1\<lparr>fines := [waiveFine_method fine0 (jan_2024 6) 7 ''first offence''],
         users := [0 \<mapsto> member0]\<rparr>"

definition loan_returned :: borrow where
  \<comment> \<open>the loan of \<open>loan0\<close> after the book has come back\<close>
  "loan_returned = loan0\<lparr>borrow_type := Returned, borrow_status := Completed\<rparr>"

definition db_returned :: db where
  "db_returned = db0\<lparr>borrows := [loan_returned]\<rparr>"

section \<open>Properties\<close>

subsection \<open>Auxiliary facts about numbers and the calculation\<close>

lemmas cfg_defs = cfg_gracePeriod_def cfg_dailyRate_def cfg_hourlyRate_def cfg_rateType_def
  cfg_maxFine_def getValue_def defaultConfig_def

lemma floor_rat_numeral:
  "\<lfloor>(numeral a :: rat) / numeral b\<rfloor> = numeral a div numeral b"
  using floor_divide_of_int_eq [where ?'a = rat, of "numeral a" "numeral b"] by simp





lemma diff_days_between:
  assumes "that + k * 86400000 \<le> this" "this < that + (k + 1) * 86400000" "0 \<le> k"
  shows "diff_days this that = k"
proof -
  have nn: "\<not> this - that < 0" using assms by simp
  have "(this - that) div 86400000 = k"
    by (rule int_div_pos_eq [of _ _ _ "this - that - k * 86400000"]) (use assms in auto)
  with nn show ?thesis by (simp add: diff_days_def trunc_div_def)
qed

lemma calc_grace:
  assumes "Borrow_findById s i = Some b" "borrow_status b \<noteq> Completed"
    "of_int (diff_days now (borrow_dueDate b)) \<le> cfg_gracePeriod s"
  shows "calculateOverdueFine s now i =
     Inr \<lparr>fineAmount = 0, gracePeriodUsed = True, overdueDays = None,
          calc_rateType = None, calc_dailyRate = None, calc_hourlyRate = None\<rparr>"
  using assms by (simp add: calculateOverdueFine_def)

lemma calc_past:
  assumes "Borrow_findById s i = Some b" "borrow_status b \<noteq> Completed"
    "\<not> of_int (diff_days now (borrow_dueDate b)) \<le> cfg_gracePeriod s"
  shows "calculateOverdueFine s now i =
     Inr \<lparr>fineAmount = round2 (min (raw_amount s (diff_days now (borrow_dueDate b))
                 (diff_hours now (borrow_dueDate b))) (cfg_maxFine s)),
          gracePeriodUsed = False,
          overdueDays = Some (diff_days now (borrow_dueDate b)),
          calc_rateType = Some (cfg_rateType s),
          calc_dailyRate = Some (cfg_dailyRate s),
          calc_hourlyRate = Some (cfg_hourlyRate s)\<rparr>"
  using assms by (simp add: calculateOverdueFine_def Let_def)

lemma db0_find: "Borrow_findById db0 0 = Some loan0"
  by (simp add: Borrow_findById_def db0_def)

lemma db0_cfg:
  "cfg_gracePeriod db0 = 2" "cfg_dailyRate db0 = 50" "cfg_maxFine db0 = 2000"
  "cfg_rateType db0 = ''per_day''" "cfg_hourlyRate db0 = 5"
  by (simp_all add: cfg_defs db0_def no_config_def)

lemma loan0_simps:
  "borrow_status loan0 = Active" "borrow_dueDate loan0 = 1704067200000"
  "borrow_user loan0 = 0" "borrow_type loan0 = Borrowed" "borrow_book loan0 = 0"
  by (simp_all add: loan0_def jan_2024_def)

subsection \<open>The grace floor\<close>

text \<open>
  Claim C1, as stated, at a concrete input: the loan due 2024-01-01 has been returned
  (status \<open>completed\<close>) and is looked at on 2024-01-02, one whole day after its due
  date, with a grace period of two days. \<^verbatim>\<open>calculateOverdueFine\<close> returns nothing:
  it throws \<open>Invalid borrow record or already completed\<close>.
\<close>

theorem C1_completed_counterexample:
  "Borrow_findById db_returned 0 = Some loan_returned
   \<and> borrow_status loan_returned = Completed
   \<and> diff_days (jan_2024 2) (borrow_dueDate loan_returned) = 1
   \<and> cfg_gracePeriod db_returned = 2
   \<and> calculateOverdueFine db_returned (jan_2024 2) 0 = Inl invalid_borrow"
proof -
  have f: "Borrow_findById db_returned 0 = Some loan_returned"
    by (simp add: Borrow_findById_def db_returned_def db0_def)
  have l: "borrow_status loan_returned = Completed"
    "borrow_dueDate loan_returned = 1704067200000"
    by (simp_all add: loan_returned_def loan0_simps)
  have d: "diff_days (jan_2024 2) 1704067200000 = 1"
    by (rule diff_days_between) (simp_all add: jan_2024_def)
  have g: "cfg_gracePeriod db_returned = 2"
    by (simp add: cfg_defs db_returned_def db0_def no_config_def)
  show ?thesis
    by (simp add: f l d g calculateOverdueFine_def)
qed

text \<open>
  Claim C1, amended. A loan that is not completed, and whose whole-day overdue count
  is at most the configured grace period, gets \<open>fineAmount = 0\<close> and
  \<open>gracePeriodUsed = true\<close> from \<^verbatim>\<open>calculateOverdueFine\<close>, whatever the daily rate,
  the hourly rate, the rate type and the cap are (they are read from the store \<open>s\<close>,
  which is arbitrary). In addition \<^verbatim>\<open>createOverdueFine\<close> writes nothing for such a
  loan.
\<close>

theorem C1_grace_floor:
  assumes "Borrow_findById s borrowId = Some b"
    and "borrow_status b \<noteq> Completed"
    and "of_int (diff_days now (borrow_dueDate b)) \<le> cfg_gracePeriod s"
  shows "(\<exists>r. calculateOverdueFine s now borrowId = Inr r
              \<and> fineAmount r = 0 \<and> gracePeriodUsed r = True)
         \<and> snd (createOverdueFine d now s borrowId) = s"
proof -
  note c = calc_grace [OF assms]
  have "snd (createOverdueFine d now s borrowId) = s"
    by (simp add: createOverdueFine_def assms(1) c split: option.splits)
  with c show ?thesis by simp
qed

theorem C1_grace_floor_witness:
  "Borrow_findById db0 0 = Some loan0
   \<and> borrow_status loan0 \<noteq> Completed
   \<and> of_int (diff_days (jan_2024 2) (borrow_dueDate loan0)) \<le> cfg_gracePeriod db0
   \<and> (\<exists>r. calculateOverdueFine db0 (jan_2024 2) 0 = Inr r
              \<and> fineAmount r = 0 \<and> gracePeriodUsed r = True)
   \<and> snd (createOverdueFine all_ok (jan_2024 2) db0 0) = db0"
proof -
  have h: "Borrow_findById db0 0 = Some loan0" "borrow_status loan0 \<noteq> Completed"
    "of_int (diff_days (jan_2024 2) (borrow_dueDate loan0)) \<le> cfg_gracePeriod db0"
    by (simp_all add: db0_find loan0_simps db0_cfg jan_2024_def diff_days_def trunc_div_def)
  from C1_grace_floor [OF h, of all_ok] h show ?thesis by simp
qed

subsection \<open>Evaluation of the example stores\<close>





lemma diff_days_jan: "0 \<le> k \<Longrightarrow> diff_days (jan_2024 (k + 1)) 1704067200000 = k"
  by (rule diff_days_between) (simp_all add: jan_2024_def)

lemma floor_rat_neg_numeral:
  "\<lfloor>- ((numeral a :: rat) / numeral b)\<rfloor> = (- numeral a) div numeral b"
  using floor_divide_of_int_eq [where ?'a = rat, of "- numeral a" "numeral b"] by simp

lemmas eval_simps = loan0_simps raw_amount_def round2_def Math_round_def floor_rat_numeral
  floor_rat_neg_numeral

subsection \<open>The cap\<close>




subsection \<open>The scenario of 2024-01-05\<close>

text \<open>
  Claim C4, as stated, at its own input: the loan due 2024-01-01, grace 2, daily rate
  50, cap 2000, evaluated at 2024-01-05. The amount is 100, not 150: four whole days
  have passed, two of them past grace.
\<close>

theorem C4_jan5_counterexample:
  "map_sum id fineAmount (calculateOverdueFine db0 (jan_2024 5) 0) = Inr 100
   \<and> map_sum id fineAmount (calculateOverdueFine db0 (jan_2024 5) 0) \<noteq> Inr 150"
proof -
  have d: "diff_days (jan_2024 5) 1704067200000 = 4"
    using diff_days_jan [of 4] by simp
  have "map_sum id fineAmount (calculateOverdueFine db0 (jan_2024 5) 0) = Inr 100"
    by (subst calc_past [OF db0_find]) (simp_all add: d db0_cfg eval_simps)
  then show ?thesis by simp
qed

text \<open>
  Claim C4, amended. For the loan due 2024-01-01 (00:00), grace 2, daily rate 50,
  \<open>per_day\<close>, cap 2000, \<^verbatim>\<open>calculateOverdueFine\<close> evaluated at any instant of
  2024-01-05 returns \<open>fineAmount = 100\<close> with \<open>overdueDays = 4\<close>.
\<close>

theorem C4_jan5_amount:
  assumes "jan_2024 5 \<le> now" and "now < jan_2024 6"
  shows "calculateOverdueFine db0 now 0 =
     Inr \<lparr>fineAmount = 100, gracePeriodUsed = False, overdueDays = Some 4,
          calc_rateType = Some ''per_day'', calc_dailyRate = Some 50,
          calc_hourlyRate = Some 5\<rparr>"
proof -
  have d: "diff_days now 1704067200000 = 4"
    by (rule diff_days_between) (use assms in \<open>simp_all add: jan_2024_def\<close>)
  show ?thesis
    by (subst calc_past [OF db0_find]) (simp_all add: d db0_cfg eval_simps)
qed

theorem C4_jan5_amount_witness:
  "jan_2024 5 \<le> jan_2024 5 + 43200000 \<and> jan_2024 5 + 43200000 < jan_2024 6
   \<and> calculateOverdueFine db0 (jan_2024 5 + 43200000) 0 =
     Inr \<lparr>fineAmount = 100, gracePeriodUsed = False, overdueDays = Some 4,
          calc_rateType = Some ''per_day'', calc_dailyRate = Some 50,
          calc_hourlyRate = Some 5\<rparr>"
proof -
  have h: "jan_2024 5 \<le> jan_2024 5 + 43200000" "jan_2024 5 + 43200000 < jan_2024 6"
    by (simp_all add: jan_2024_def)
  from C4_jan5_amount [OF h] h show ?thesis by simp
qed

subsection \<open>Monotonic accrual\<close>




subsection \<open>Auxiliary facts about the ledger operations\<close>

lemma sendFineNotice_throws: "\<exists>e. sendFineNotice d doc = Inl e"
proof -
  have "Fine_populate d g ''book'' = Inl StrictPopulateError" for g
    by (simp add: Fine_populate_def fineSchema_paths_def)
  then show ?thesis
    by (simp add: sendFineNotice_def split: sum.splits)
qed

lemma Fine_create_cases:
  "Fine_create s f = (if Fine_valid f
      then Inr (f\<lparr>fine_id := length (fines s)\<rparr>, s\<lparr>fines := fines s @ [f\<lparr>fine_id := length (fines s)\<rparr>]\<rparr>)
      else Inl ValidationError)"
  by (simp add: Fine_create_def Let_def)

lemma overdue_fine_data_simps:
  "fine_user (overdue_fine_data s now i b c) = borrow_user b"
  "fine_borrow (overdue_fine_data s now i b c) = i"
  "fine_type (overdue_fine_data s now i b c) = Overdue"
  "fine_status (overdue_fine_data s now i b c) = Pending"
  "amount (overdue_fine_data s now i b c) = fineAmount c"
  by (simp_all add: overdue_fine_data_def new_fine_def Let_def)

lemma createOverdueFine_cases:
  assumes "createOverdueFine d now s i = (r, s')"
  obtains (unchanged) "s' = s" "\<And>f. r \<noteq> Inr (Some f)"
  | (written) b u c doc where
      "Borrow_findById s i = Some b" "Fine_findOne s i Overdue = None"
      "calculateOverdueFine s now i = Inr c" "fineAmount c \<noteq> 0"
      "users s (borrow_user b) = Some u"
      "doc = (overdue_fine_data s now i b c)\<lparr>fine_id := length (fines s)\<rparr>"
      "0 \<le> amount doc"
      "s' = s\<lparr>fines := fines s @ [doc],
              users := (users s)(borrow_user b \<mapsto> u\<lparr>fineBalance := fineBalance u + fineAmount c\<rparr>)\<rparr>"
      "r = (case sendFineNotice d doc of Inl e \<Rightarrow> Inl e | Inr x \<Rightarrow> Inr (Some doc))"
proof (cases "Borrow_findById s i")
  case None
  with assms unchanged show ?thesis by (auto simp add: createOverdueFine_def)
next
  case b: (Some b)
  show ?thesis
  proof (cases "Fine_findOne s i Overdue")
    case (Some f)
    with assms b unchanged show ?thesis by (auto simp add: createOverdueFine_def)
  next
    case nf: None
    show ?thesis
    proof (cases "calculateOverdueFine s now i")
      case (Inl e)
      with assms b nf unchanged show ?thesis by (auto simp add: createOverdueFine_def)
    next
      case c: (Inr c)
      show ?thesis
      proof (cases "fineAmount c = 0")
        case True
        with assms b nf c unchanged show ?thesis by (auto simp add: createOverdueFine_def)
      next
        case nz: False
        show ?thesis
        proof (cases "users s (borrow_user b)")
          case None
          with assms b nf c nz unchanged show ?thesis by (auto simp add: createOverdueFine_def)
        next
          case u: (Some u)
          show ?thesis
          proof (cases "Fine_valid (overdue_fine_data s now i b c)")
            case False
            with assms b nf c nz u unchanged show ?thesis
              by (auto simp add: createOverdueFine_def Fine_create_cases)
          next
            case True
            then have a: "0 \<le> amount ((overdue_fine_data s now i b c)\<lparr>fine_id := length (fines s)\<rparr>)"
              by (simp add: Fine_valid_def)
            have "s' = s\<lparr>fines := fines s @ [(overdue_fine_data s now i b c)\<lparr>fine_id := length (fines s)\<rparr>],
              users := (users s)(borrow_user b \<mapsto> u\<lparr>fineBalance := fineBalance u + fineAmount c\<rparr>)\<rparr>"
              and "r = (case sendFineNotice d
                                ((overdue_fine_data s now i b c)\<lparr>fine_id := length (fines s)\<rparr>) of
                          Inl e \<Rightarrow> Inl e
                        | Inr x \<Rightarrow> Inr (Some ((overdue_fine_data s now i b c)\<lparr>fine_id := length (fines s)\<rparr>)))"
              using assms b nf c nz u True
              by (auto simp add: createOverdueFine_def Fine_create_cases User_inc_fineBalance_def
                  Let_def split: sum.splits)
            with written [OF b nf c nz u refl a] show ?thesis by simp
          qed
        qed
      qed
    qed
  qed
qed

lemma Fine_findOne_None_iff: "Fine_findOne s i t = None \<longleftrightarrow> Fine_find s i t = []"
  unfolding Fine_findOne_def Fine_find_def find_None_iff filter_empty_conv by blast

lemma create_Fine_find:
  assumes "createOverdueFine d now s i = (r, s')"
  shows "Fine_find s' j t = Fine_find s j t
         \<or> (j = i \<and> t = Overdue \<and> Fine_find s i Overdue = []
             \<and> (\<exists>doc. Fine_find s' i Overdue = [doc]))"
  using assms
proof (cases rule: createOverdueFine_cases)
  case unchanged
  then show ?thesis by simp
next
  case (written b u c doc)
  then show ?thesis
    by (auto simp add: Fine_find_def Fine_findOne_None_iff overdue_fine_data_simps)
qed

lemma create_keeps:
  assumes "createOverdueFine d now s i = (r, s')" "Fine_find s j t \<noteq> []"
  shows "Fine_find s' j t = Fine_find s j t"
  using create_Fine_find [OF assms(1), of j t] assms(2) by auto

lemma create_le1:
  assumes "createOverdueFine d now s i = (r, s')" "length (Fine_find s j t) \<le> 1"
  shows "length (Fine_find s' j t) \<le> 1"
  using create_Fine_find [OF assms(1), of j t] assms(2) by auto

lemma sweep_keeps:
  "sweep_loop ds now ids n s = (n', s') \<Longrightarrow> Fine_find s j t \<noteq> []
   \<Longrightarrow> Fine_find s' j t = Fine_find s j t"
proof (induction ids arbitrary: n s)
  case Nil
  then show ?case by simp
next
  case (Cons i rest)
  show ?case
  proof (cases "Fine_findOne s i Overdue")
    case (Some f)
    with Cons show ?thesis by simp
  next
    case None
    obtain r s1 where c: "createOverdueFine (ds i) now s i = (r, s1)"
      by (cases "createOverdueFine (ds i) now s i")
    have k: "Fine_find s1 j t = Fine_find s j t"
      using create_keeps [OF c Cons.prems(2)] .
    obtain m where "sweep_loop ds now rest m s1 = (n', s')"
      using Cons.prems(1) None c by (cases r) auto
    from Cons.IH [OF this] k Cons.prems(2) show ?thesis by simp
  qed
qed

lemma sweep_le1:
  "sweep_loop ds now ids n s = (n', s') \<Longrightarrow> length (Fine_find s j t) \<le> 1
   \<Longrightarrow> length (Fine_find s' j t) \<le> 1"
proof (induction ids arbitrary: n s)
  case Nil
  then show ?case by simp
next
  case (Cons i rest)
  show ?case
  proof (cases "Fine_findOne s i Overdue")
    case (Some f)
    with Cons show ?thesis by simp
  next
    case None
    obtain r s1 where c: "createOverdueFine (ds i) now s i = (r, s1)"
      by (cases "createOverdueFine (ds i) now s i")
    have k: "length (Fine_find s1 j t) \<le> 1"
      using create_le1 [OF c Cons.prems(2)] .
    obtain m where "sweep_loop ds now rest m s1 = (n', s')"
      using Cons.prems(1) None c by (cases r) auto
    from Cons.IH [OF this k] show ?thesis .
  qed
qed

lemma sweep_count:
  "sweep_loop ds now ids n s = (n', s')
   \<Longrightarrow> n' \<le> n + length (filter (\<lambda>j. Fine_find s j Overdue = []) ids)"
proof (induction ids arbitrary: n s)
  case Nil
  then show ?case by simp
next
  case (Cons i rest)
  show ?case
  proof (cases "Fine_findOne s i Overdue")
    case (Some f)
    then have "Fine_find s i Overdue \<noteq> []"
      using Fine_findOne_None_iff [of s i Overdue] by simp
    with Cons Some show ?thesis by simp
  next
    case None
    then have e: "Fine_find s i Overdue = []" by (simp add: Fine_findOne_None_iff)
    obtain r s1 where c: "createOverdueFine (ds i) now s i = (r, s1)"
      by (cases "createOverdueFine (ds i) now s i")
    obtain m where m: "sweep_loop ds now rest m s1 = (n', s')" "m \<le> n + 1"
      using Cons.prems(1) None c by (cases r) auto
    have sub: "Fine_find s1 j Overdue = [] \<Longrightarrow> Fine_find s j Overdue = []" for j
      using create_keeps [OF c, of j Overdue] by auto
    have "length (filter (\<lambda>j. Fine_find s1 j Overdue = []) rest)
          \<le> length (filter (\<lambda>j. Fine_find s j Overdue = []) rest)"
    proof -
      have "filter (\<lambda>j. Fine_find s1 j Overdue = []) rest
          = filter (\<lambda>j. Fine_find s1 j Overdue = [])
              (filter (\<lambda>j. Fine_find s j Overdue = []) rest)"
        using sub by (auto intro: filter_cong)
      then show ?thesis by (metis length_filter_le)
    qed
    with Cons.IH [OF m(1)] m(2) e show ?thesis by simp
  qed
qed


lemma create_prefix:
  assumes "createOverdueFine d now s i = (r, s')"
  shows "\<exists>new. fines s' = fines s @ new"
  using assms by (cases rule: createOverdueFine_cases) auto

lemma sweep_prefix:
  "sweep_loop ds now ids n s = (n', s') \<Longrightarrow> \<exists>new. fines s' = fines s @ new"
proof (induction ids arbitrary: n s)
  case Nil
  then show ?case by simp
next
  case (Cons i rest)
  show ?case
  proof (cases "Fine_findOne s i Overdue")
    case (Some f)
    with Cons show ?thesis by simp
  next
    case None
    obtain r s1 where c: "createOverdueFine (ds i) now s i = (r, s1)"
      by (cases "createOverdueFine (ds i) now s i")
    obtain m where "sweep_loop ds now rest m s1 = (n', s')"
      using Cons.prems(1) None c by (cases r) auto
    from Cons.IH [OF this] create_prefix [OF c] show ?thesis by auto
  qed
qed

lemma process_sweep:
  "processOverdueFines ds now s =
     (\<lparr>processedCount = fst (sweep_loop ds now (Borrow_find_overdue s now) 0 s),
       totalOverdue = length (Borrow_find_overdue s now)\<rparr>,
      snd (sweep_loop ds now (Borrow_find_overdue s now) 0 s))"
  by (simp add: processOverdueFines_def Let_def split: prod.splits)

lemma lost_fines:
  "fines (snd (createLostBookFine d now s i c)) = fines s
   \<or> (\<exists>doc. fines (snd (createLostBookFine d now s i c)) = fines s @ [doc]
             \<and> fine_type doc = Lost)"
proof (cases "Borrow_findById s i")
  case None
  then show ?thesis by (simp add: createLostBookFine_def)
next
  case b: (Some b)
  show ?thesis
  proof (cases "Fine_findOne s i Lost")
    case (Some f)
    with b show ?thesis by (simp add: createLostBookFine_def)
  next
    case nf: None
    show ?thesis
    proof (cases "lost_book_value s b c")
      case None
      with b nf show ?thesis by (simp add: createLostBookFine_def)
    next
      case v: (Some v)
      show ?thesis
      proof (cases "users s (borrow_user b)")
        case None
        with b nf v show ?thesis by (simp add: createLostBookFine_def Let_def)
      next
        case u: (Some u)
        show ?thesis
          using b nf v u
          by (simp add: createLostBookFine_def Let_def Fine_create_cases
              User_inc_fineBalance_def Borrow_markLost_def lost_fine_data_def new_fine_def
              split: sum.splits)
      qed
    qed
  qed
qed

lemma payFine_fines:
  "fines (snd (payFine d now s k by)) =
     (case Fine_findById s k of
        None \<Rightarrow> fines s
      | Some f \<Rightarrow> if fine_status f = Paid then fines s
                  else (fines s)[k := markAsPaid f now by])"
  by (simp add: payFine_def Let_def Fine_save_def User_inc_fineBalance_def
      split: option.splits sum.splits)

lemma waiveFine_fines:
  "fines (snd (waiveFine d now s k by reason)) =
     (case Fine_findById s k of
        None \<Rightarrow> fines s
      | Some f \<Rightarrow> if fine_status f = Paid then fines s
                  else (fines s)[k := waiveFine_method f now by reason])"
  by (simp add: waiveFine_def Let_def Fine_save_def User_inc_fineBalance_def
      split: option.splits sum.splits)


lemma length_filter_update:
  "k < length xs \<Longrightarrow> P x = P (xs ! k)
   \<Longrightarrow> length (filter P (xs[k := x])) = length (filter P xs)"
proof (induction xs arbitrary: k)
  case Nil
  then show ?case by simp
next
  case (Cons y ys)
  then show ?case by (cases k) auto
qed

lemma Fine_find_update:
  assumes "k < length (fines s)" "fines s' = (fines s)[k := f]"
    "fine_borrow f = fine_borrow (fines s ! k)" "fine_type f = fine_type (fines s ! k)"
  shows "length (Fine_find s' j t) = length (Fine_find s j t)"
  unfolding Fine_find_def assms(2)
  by (rule length_filter_update) (use assms in auto)

lemma apply_op_le1:
  assumes "length (Fine_find s j Overdue) \<le> 1"
  shows "length (Fine_find (apply_op s x) j Overdue) \<le> 1"
proof (cases x)
  case (CreateOverdueFine d now i)
  obtain r s' where c: "createOverdueFine d now s i = (r, s')"
    by (cases "createOverdueFine d now s i")
  from create_le1 [OF c assms] c CreateOverdueFine show ?thesis by simp
next
  case (CreateLostBookFine d now i c)
  from lost_fines [of d now s i c] assms CreateLostBookFine show ?thesis
    by (auto simp add: Fine_find_def)
next
  case (PayFine d now k staff)
  show ?thesis
  proof (cases "k < length (fines s) \<and> fine_status (fines s ! k) \<noteq> Paid")
    case True
    then have "fines (apply_op s x) = (fines s)[k := markAsPaid (fines s ! k) now staff]"
      using PayFine by (simp add: payFine_fines Fine_findById_def)
    from Fine_find_update [OF _ this] True assms show ?thesis
      by (simp add: markAsPaid_def)
  next
    case False
    then have "fines (apply_op s x) = fines s"
      using PayFine by (auto simp add: payFine_fines Fine_findById_def)
    with assms show ?thesis by (simp add: Fine_find_def)
  qed
next
  case (WaiveFine d now k staff reason)
  show ?thesis
  proof (cases "k < length (fines s) \<and> fine_status (fines s ! k) \<noteq> Paid")
    case True
    then have "fines (apply_op s x) = (fines s)[k := waiveFine_method (fines s ! k) now staff reason]"
      using WaiveFine by (simp add: waiveFine_fines Fine_findById_def)
    from Fine_find_update [OF _ this] True assms show ?thesis
      by (simp add: waiveFine_method_def)
  next
    case False
    then have "fines (apply_op s x) = fines s"
      using WaiveFine by (auto simp add: waiveFine_fines Fine_findById_def)
    with assms show ?thesis by (simp add: Fine_find_def)
  qed
next
  case (ProcessOverdueFines ds now)
  obtain n' s' where c: "sweep_loop ds now (Borrow_find_overdue s now) 0 s = (n', s')"
    by (cases "sweep_loop ds now (Borrow_find_overdue s now) 0 s")
  from sweep_le1 [OF c assms] c ProcessOverdueFines show ?thesis
    by (simp add: process_sweep)
qed

lemma run_ops_le1:
  "length (Fine_find s j Overdue) \<le> 1 \<Longrightarrow> length (Fine_find (run_ops s xs) j Overdue) \<le> 1"
proof (induction xs arbitrary: s)
  case Nil
  then show ?case by simp
next
  case (Cons x xs)
  from Cons.IH [OF apply_op_le1 [OF Cons.prems]] show ?case by simp
qed

lemma apply_op_paid:
  assumes "k < length (fines s)" "fine_status (fines s ! k) = Paid"
  shows "k < length (fines (apply_op s x)) \<and> fines (apply_op s x) ! k = fines s ! k"
proof (cases x)
  case (CreateOverdueFine d now i)
  obtain r s' where c: "createOverdueFine d now s i = (r, s')"
    by (cases "createOverdueFine d now s i")
  from create_prefix [OF c] c CreateOverdueFine assms(1) show ?thesis
    by (auto simp add: nth_append)
next
  case (CreateLostBookFine d now i c)
  from lost_fines [of d now s i c] assms(1) CreateLostBookFine show ?thesis
    by (auto simp add: nth_append)
next
  case (PayFine d now k' staff)
  have "k' \<noteq> k" if "fine_status (fines s ! k') \<noteq> Paid"
    using that assms(2) by auto
  with PayFine assms show ?thesis
    by (auto simp add: payFine_fines Fine_findById_def)
next
  case (WaiveFine d now k' staff reason)
  have "k' \<noteq> k" if "fine_status (fines s ! k') \<noteq> Paid"
    using that assms(2) by auto
  with WaiveFine assms show ?thesis
    by (auto simp add: waiveFine_fines Fine_findById_def)
next
  case (ProcessOverdueFines ds now)
  obtain n' s' where c: "sweep_loop ds now (Borrow_find_overdue s now) 0 s = (n', s')"
    by (cases "sweep_loop ds now (Borrow_find_overdue s now) 0 s")
  from sweep_prefix [OF c] c ProcessOverdueFines assms(1) show ?thesis
    by (auto simp add: process_sweep nth_append)
qed

lemma run_ops_paid:
  "k < length (fines s) \<Longrightarrow> fine_status (fines s ! k) = Paid
   \<Longrightarrow> k < length (fines (run_ops s xs)) \<and> fines (run_ops s xs) ! k = fines s ! k"
proof (induction xs arbitrary: s)
  case Nil
  then show ?case by simp
next
  case (Cons x xs)
  from apply_op_paid [OF Cons.prems, of x]
  have a: "k < length (fines (apply_op s x))" "fines (apply_op s x) ! k = fines s ! k"
    by simp_all
  with Cons.prems(2) have "fine_status (fines (apply_op s x) ! k) = Paid" by simp
  from Cons.IH [OF a(1) this] a(2) show ?case by simp
qed

subsection \<open>Evaluation of the ledger on the example stores\<close>

lemma calc_db0_jan5:
  "calculateOverdueFine db0 (jan_2024 5) 0 =
     Inr \<lparr>fineAmount = 100, gracePeriodUsed = False, overdueDays = Some 4,
          calc_rateType = Some ''per_day'', calc_dailyRate = Some 50,
          calc_hourlyRate = Some 5\<rparr>"
proof -
  have d: "diff_days (jan_2024 5) 1704067200000 = 4"
    using diff_days_jan [of 4] by simp
  show ?thesis
    by (subst calc_past [OF db0_find]) (simp_all add: d db0_cfg eval_simps)
qed

lemma db0_fields:
  "borrows db0 = [loan0]" "fines db0 = []" "users db0 = [0 \<mapsto> member0]"
  "config db0 = no_config" "books db0 = [0 \<mapsto> \<lparr>title = ''Kifo Kisimani'', price = 1000\<rparr>]"
  by (simp_all add: db0_def)

lemma db1_fields:
  "borrows db1 = [loan0]" "fines db1 = [fine0]"
  "users db1 = [0 \<mapsto> member0\<lparr>fineBalance := 100\<rparr>]"
  "config db1 = no_config" "books db1 = books db0"
  by (simp_all add: db1_def db0_def)

lemma fine0_data:
  "(overdue_fine_data db0 (jan_2024 5) 0 loan0
      \<lparr>fineAmount = 100, gracePeriodUsed = False, overdueDays = Some 4,
          calc_rateType = Some ''per_day'', calc_dailyRate = Some 50,
          calc_hourlyRate = Some 5\<rparr>)\<lparr>fine_id := 0\<rparr> = fine0"
  by (simp add: overdue_fine_data_def new_fine_def fine0_def getValue_def Let_def
      loan0_simps db0_cfg add_days_def jan_2024_def)

lemma member0_simps:
  "fineBalance member0 = 0" "phone member0 = ''0700000001''"
  "email member0 = ''amina@example.org''"
  by (simp_all add: member0_def)

lemma create_db0_jan5:
  "createOverdueFine d (jan_2024 5) db0 0 =
     (case sendFineNotice d fine0 of Inl e \<Rightarrow> Inl e | Inr x \<Rightarrow> Inr (Some fine0), db1)"
proof -
  have v: "Fine_valid (overdue_fine_data db0 (jan_2024 5) 0 loan0
      \<lparr>fineAmount = 100, gracePeriodUsed = False, overdueDays = Some 4,
          calc_rateType = Some ''per_day'', calc_dailyRate = Some 50,
          calc_hourlyRate = Some 5\<rparr>)"
    by (simp add: Fine_valid_def overdue_fine_data_def new_fine_def getValue_def Let_def)
  have s: "db0\<lparr>fines := [fine0], users := [0 \<mapsto> member0\<lparr>fineBalance := 100\<rparr>]\<rparr> = db1"
    by (simp add: db1_def)
  show ?thesis
    by (simp add: createOverdueFine_def db0_find Fine_findOne_def db0_fields calc_db0_jan5
        loan0_simps Fine_create_cases v fine0_data User_inc_fineBalance_def Let_def
        member0_simps s split: sum.splits)
qed

lemma notice_fine0:
  "sendFineNotice all_ok doc = Inl StrictPopulateError"
  "sendFineNotice no_populate doc = Inl DeliveryError"
  by (simp_all add: sendFineNotice_def Fine_populate_def fineSchema_paths_def all_ok_def
      no_populate_def)

lemma create_db0_jan5_throws:
  "createOverdueFine all_ok (jan_2024 5) db0 0 = (Inl StrictPopulateError, db1)"
  "createOverdueFine no_populate (jan_2024 5) db0 0 = (Inl DeliveryError, db1)"
  by (simp_all add: create_db0_jan5 notice_fine0)

lemma db1_find: "Fine_find db1 0 Overdue = [fine0]" "Fine_findOne db1 0 Overdue = Some fine0"
  "Borrow_findById db1 0 = Some loan0"
  by (simp_all add: Fine_find_def Fine_findOne_def db1_fields fine0_def Borrow_findById_def)

lemma find_overdue_db:
  "1704067200000 < now \<Longrightarrow> Borrow_find_overdue db0 now = [0]"
  "1704067200000 < now \<Longrightarrow> Borrow_find_overdue db1 now = [0]"
  by (simp_all add: Borrow_find_overdue_def db0_fields db1_fields loan0_simps)

lemma calc_db0_jan2:
  "calculateOverdueFine db0 (jan_2024 2) 0 =
     Inr \<lparr>fineAmount = 0, gracePeriodUsed = True, overdueDays = None,
          calc_rateType = None, calc_dailyRate = None, calc_hourlyRate = None\<rparr>"
proof -
  have d: "diff_days (jan_2024 2) 1704067200000 = 1"
    using diff_days_jan [of 1] by simp
  show ?thesis
    by (subst calc_grace [OF db0_find]) (simp_all add: d db0_cfg loan0_simps)
qed

lemma create_db0_jan2: "createOverdueFine d (jan_2024 2) db0 0 = (Inr None, db0)"
  by (simp add: createOverdueFine_def db0_find Fine_findOne_def db0_fields calc_db0_jan2)

lemma sweep_db0_jan2:
  "processOverdueFines ds (jan_2024 2) db0 = (\<lparr>processedCount = 1, totalOverdue = 1\<rparr>, db0)"
proof -
  have "Borrow_find_overdue db0 (jan_2024 2) = [0]"
    by (rule find_overdue_db) (simp add: jan_2024_def)
  then show ?thesis
    by (simp add: process_sweep Fine_findOne_def db0_fields create_db0_jan2)
qed

lemma sweep_db0_jan5:
  "processOverdueFines ds (jan_2024 5) db0 = (\<lparr>processedCount = 0, totalOverdue = 1\<rparr>, db1)"
proof -
  have "Borrow_find_overdue db0 (jan_2024 5) = [0]"
    by (rule find_overdue_db) (simp add: jan_2024_def)
  moreover obtain e where "sendFineNotice (ds 0) fine0 = Inl e"
    using sendFineNotice_throws by blast
  ultimately show ?thesis
    by (simp add: process_sweep Fine_findOne_def db0_fields create_db0_jan5)
qed

lemma sweep_db1:
  assumes "1704067200000 < now"
  shows "processOverdueFines ds now db1 = (\<lparr>processedCount = 0, totalOverdue = 1\<rparr>, db1)"
  using find_overdue_db(2) [OF assms] by (simp add: process_sweep db1_find)

lemma written_fine:
  assumes "createOverdueFine d now s i = (r, s1)" and "fines s1 \<noteq> fines s"
  obtains f u e where "fines s1 = fines s @ [f]" "fine_id f = length (fines s)"
    "users s (fine_user f) = Some u"
    "users s1 = (users s)(fine_user f \<mapsto> u\<lparr>fineBalance := fineBalance u + amount f\<rparr>)"
    "fine_status f = Pending" "0 < amount f" "fine_borrow f = i" "fine_type f = Overdue"
    "borrows s1 = borrows s" "Borrow_findById s i \<noteq> None" "Fine_find s i Overdue = []"
    "r = Inl e"
  using assms(1)
proof (cases rule: createOverdueFine_cases)
  case unchanged
  with assms(2) show ?thesis by simp
next
  case (written b u c doc)
  obtain e where e: "sendFineNotice d doc = Inl e"
    using sendFineNotice_throws by blast
  have p: "0 < amount doc"
    using written(4,7) by (simp add: written(6) overdue_fine_data_simps)
  have n: "Fine_find s i Overdue = []"
    using written(2) by (simp add: Fine_findOne_None_iff)
  from written p n e that [of doc u e] show ?thesis
    by (simp add: overdue_fine_data_simps)
qed

subsection \<open>At most one overdue fine per loan\<close>

text \<open>
  Claim C2, as stated, at a concrete input: the loan due 2024-01-01 on 2024-01-02 is
  overdue (the sweep selects it) but within grace. The second call of
  \<^verbatim>\<open>createOverdueFine\<close> returns null as the first did, not \<open>DuplicateFine\<close>, there is
  no fine record, and the second run of \<^verbatim>\<open>processOverdueFines\<close> counts the loan again.
\<close>

theorem C2_single_fine_counterexample:
  "createOverdueFine all_ok (jan_2024 2) db0 0 = (Inr None, db0)
   \<and> createOverdueFine all_ok (jan_2024 2) (snd (createOverdueFine all_ok (jan_2024 2) db0 0)) 0
       = (Inr None, db0)
   \<and> fines db0 = []
   \<and> processOverdueFines always_ok (jan_2024 2) db0
       = (\<lparr>processedCount = 1, totalOverdue = 1\<rparr>, db0)
   \<and> processOverdueFines always_ok (jan_2024 2)
         (snd (processOverdueFines always_ok (jan_2024 2) db0))
       = (\<lparr>processedCount = 1, totalOverdue = 1\<rparr>, db0)"
  by (simp add: create_db0_jan2 sweep_db0_jan2 db0_fields)

text \<open>
  Claim C2, amended. (1) Along every sequence of ledger operations, a loan that has at
  most one fine of type \<open>overdue\<close> keeps at most one. (2) Once a call of
  \<^verbatim>\<open>createOverdueFine\<close> has stored a fine for a loan, whatever the call returned or
  threw afterwards, that fine is the only overdue fine of the loan and every later call
  for the loan fails with \<open>DuplicateFine\<close> and writes nothing. (3) Once a run of
  \<^verbatim>\<open>processOverdueFines\<close> has left an overdue fine for a loan that had none, the loan
  has exactly one, a later run creates no further one for it, and the later run's
  \<open>processedCount\<close> counts only loans that had no overdue fine when that run started.
\<close>

theorem C2_single_overdue_fine:
  "(length (Fine_find s i Overdue) \<le> 1
      \<longrightarrow> length (Fine_find (run_ops s xs) i Overdue) \<le> 1)
   \<and> (createOverdueFine d now s i = (r1, s1) \<and> fines s1 \<noteq> fines s
      \<longrightarrow> (\<exists>f. fines s1 = fines s @ [f] \<and> Fine_find s1 i Overdue = [f])
          \<and> createOverdueFine d' now' s1 i = (Inl DuplicateFine, s1))
   \<and> (processOverdueFines ds now s = (res1, t1)
        \<and> Fine_find s i Overdue = [] \<and> Fine_find t1 i Overdue \<noteq> []
        \<and> processOverdueFines ds' now' t1 = (res2, t2)
      \<longrightarrow> length (Fine_find t1 i Overdue) = 1
          \<and> Fine_find t2 i Overdue = Fine_find t1 i Overdue
          \<and> processedCount res2
              \<le> length (filter (\<lambda>j. Fine_find t1 j Overdue = [])
                          (Borrow_find_overdue t1 now')))"
proof (intro conjI impI)
  assume "length (Fine_find s i Overdue) \<le> 1"
  then show "length (Fine_find (run_ops s xs) i Overdue) \<le> 1" by (rule run_ops_le1)
next
  assume c: "createOverdueFine d now s i = (r1, s1) \<and> fines s1 \<noteq> fines s"
  then have c1: "createOverdueFine d now s i = (r1, s1)" and c2: "fines s1 \<noteq> fines s"
    by simp_all
  from c1 c2 obtain f where f: "fines s1 = fines s @ [f]" "fine_borrow f = i"
    "fine_type f = Overdue" "Fine_find s i Overdue = []" "borrows s1 = borrows s"
    "Borrow_findById s i \<noteq> None"
    by (cases rule: written_fine) blast
  have one: "Fine_find s1 i Overdue = [f]"
    using f(1-4) by (simp add: Fine_find_def)
  with f(1) show "\<exists>f. fines s1 = fines s @ [f] \<and> Fine_find s1 i Overdue = [f]" by blast
  have "Borrow_findById s1 i \<noteq> None"
    using f(5,6) by (auto simp add: Borrow_findById_def split: if_splits)
  moreover from one have "Fine_findOne s1 i Overdue \<noteq> None"
    by (simp add: Fine_findOne_None_iff)
  ultimately show "createOverdueFine d' now' s1 i = (Inl DuplicateFine, s1)"
    by (auto simp add: createOverdueFine_def)
next
  assume h: "processOverdueFines ds now s = (res1, t1)
        \<and> Fine_find s i Overdue = [] \<and> Fine_find t1 i Overdue \<noteq> []
        \<and> processOverdueFines ds' now' t1 = (res2, t2)"
  obtain n1 where r1: "sweep_loop ds now (Borrow_find_overdue s now) 0 s = (n1, t1)"
    using h by (cases "sweep_loop ds now (Borrow_find_overdue s now) 0 s")
      (simp add: process_sweep)
  have r2: "sweep_loop ds' now' (Borrow_find_overdue t1 now') 0 t1 = (processedCount res2, t2)"
    using h by (cases "sweep_loop ds' now' (Borrow_find_overdue t1 now') 0 t1")
      (auto simp add: process_sweep)
  from sweep_le1 [OF r1, of i Overdue] h
  have "length (Fine_find t1 i Overdue) \<le> 1" by simp
  with h show "length (Fine_find t1 i Overdue) = 1"
    by (cases "Fine_find t1 i Overdue") auto
  from sweep_keeps [OF r2] h show "Fine_find t2 i Overdue = Fine_find t1 i Overdue" by simp
  from sweep_count [OF r2]
  show "processedCount res2
          \<le> length (filter (\<lambda>j. Fine_find t1 j Overdue = []) (Borrow_find_overdue t1 now'))"
    by simp
qed

theorem C2_single_overdue_fine_witness:
  "length (Fine_find db0 0 Overdue) \<le> 1
   \<and> length (Fine_find (run_ops db0 [CreateOverdueFine all_ok (jan_2024 5) 0,
                                      ProcessOverdueFines always_ok (jan_2024 6)]) 0 Overdue) \<le> 1
   \<and> createOverdueFine all_ok (jan_2024 5) db0 0 = (Inl StrictPopulateError, db1)
   \<and> fines db1 \<noteq> fines db0
   \<and> (\<exists>f. fines db1 = fines db0 @ [f] \<and> Fine_find db1 0 Overdue = [f])
   \<and> createOverdueFine all_ok (jan_2024 6) db1 0 = (Inl DuplicateFine, db1)
   \<and> processOverdueFines always_ok (jan_2024 5) db0
       = (\<lparr>processedCount = 0, totalOverdue = 1\<rparr>, db1)
   \<and> Fine_find db0 0 Overdue = [] \<and> Fine_find db1 0 Overdue \<noteq> []
   \<and> processOverdueFines always_ok (jan_2024 6) db1
       = (\<lparr>processedCount = 0, totalOverdue = 1\<rparr>, db1)
   \<and> processedCount \<lparr>processedCount = 0, totalOverdue = 1\<rparr>
       \<le> length (filter (\<lambda>j. Fine_find db1 j Overdue = []) (Borrow_find_overdue db1 (jan_2024 6)))"
proof -
  have h1: "length (Fine_find db0 0 Overdue) \<le> 1" "Fine_find db0 0 Overdue = []"
    by (simp_all add: Fine_find_def db0_fields)
  have h2: "createOverdueFine all_ok (jan_2024 5) db0 0 = (Inl StrictPopulateError, db1)"
    by (rule create_db0_jan5_throws)
  have h2': "fines db1 \<noteq> fines db0" by (simp add: db0_fields db1_fields)
  have h3: "processOverdueFines always_ok (jan_2024 5) db0
       = (\<lparr>processedCount = 0, totalOverdue = 1\<rparr>, db1)"
    by (rule sweep_db0_jan5)
  have h4: "processOverdueFines always_ok (jan_2024 6) db1
       = (\<lparr>processedCount = 0, totalOverdue = 1\<rparr>, db1)"
    by (rule sweep_db1) (simp add: jan_2024_def)
  have h5: "Fine_find db1 0 Overdue \<noteq> []" by (simp add: db1_find)
  from C2_single_overdue_fine [where s = db0 and i = 0
      and xs = "[CreateOverdueFine all_ok (jan_2024 5) 0,
                 ProcessOverdueFines always_ok (jan_2024 6)]"
      and d = all_ok and now = "jan_2024 5" and ?r1.0 = "Inl StrictPopulateError"
      and ?s1.0 = db1 and d' = all_ok and now' = "jan_2024 6"
      and ds = always_ok and ?res1.0 = "\<lparr>processedCount = 0, totalOverdue = 1\<rparr>" and ?t1.0 = db1
      and ds' = always_ok and ?res2.0 = "\<lparr>processedCount = 0, totalOverdue = 1\<rparr>" and ?t2.0 = db1]
    h1 h2 h2' h3 h4 h5
  show ?thesis by simp
qed

subsection \<open>Payment and waiver\<close>

lemma payFine_open:
  assumes "Fine_findById s k = Some f" "fine_status f \<noteq> Paid"
  shows "payFine d now s k staff =
     (case users s (fine_user f) of
        None \<Rightarrow> (Inl TypeError, Fine_save s k (markAsPaid f now staff))
      | Some u \<Rightarrow>
          (case sendNotification d u [Email] of
             Inl e \<Rightarrow> Inl e
           | Inr x \<Rightarrow> Inr (markAsPaid f now staff),
           User_inc_fineBalance (Fine_save s k (markAsPaid f now staff)) (fine_user f)
             (- amount f)))"
  using assms
  by (simp add: payFine_def Let_def markAsPaid_def split: option.splits sum.splits)

lemma waiveFine_open:
  assumes "Fine_findById s k = Some f" "fine_status f \<noteq> Paid"
  shows "waiveFine d now s k staff reason =
     (case users s (fine_user f) of
        None \<Rightarrow> (Inl TypeError, Fine_save s k (waiveFine_method f now staff reason))
      | Some u \<Rightarrow>
          (case sendNotification d u [Email] of
             Inl e \<Rightarrow> Inl e
           | Inr x \<Rightarrow> Inr (waiveFine_method f now staff reason),
           User_inc_fineBalance (Fine_save s k (waiveFine_method f now staff reason))
             (fine_user f) (- amount f)))"
  using assms
  by (simp add: waiveFine_def Let_def waiveFine_method_def split: option.splits sum.splits)

lemma payFine_closed:
  assumes "Fine_findById s k = Some f" "fine_status f = Paid"
  shows "payFine d now s k staff = (Inl AlreadyPaid, s)"
  using assms by (simp add: payFine_def)

lemma waiveFine_closed:
  assumes "Fine_findById s k = Some f" "fine_status f = Paid"
  shows "waiveFine d now s k staff reason = (Inl CannotWaivePaid, s)"
  using assms by (simp add: waiveFine_def)

lemma inc_users:
  "users s uid = Some u \<Longrightarrow>
   users (User_inc_fineBalance s uid delta) = (users s)(uid \<mapsto> u\<lparr>fineBalance := fineBalance u + delta\<rparr>)"
  by (simp add: User_inc_fineBalance_def)

lemma save_fields:
  "users (Fine_save s k f) = users s" "borrows (Fine_save s k f) = borrows s"
  "fines (Fine_save s k f) = (fines s)[k := f]"
  by (simp_all add: Fine_save_def)

lemma paid_unchanged:
  assumes "Fine_findById s k = Some f" "fine_status f = Paid"
  shows "Fine_findById (run_ops s xs) k = Some f"
proof -
  have "k < length (fines s)" "fine_status (fines s ! k) = Paid" "fines s ! k = f"
    using assms by (auto simp add: Fine_findById_def split: if_splits)
  from run_ops_paid [OF this(1,2), of xs] this(3) show ?thesis
    by (simp add: Fine_findById_def)
qed

lemma db_paid_find:
  "Fine_findById db_paid 0 = Some (markAsPaid fine0 (jan_2024 6) 7)"
  "fine_status (markAsPaid fine0 (jan_2024 6) 7) = Paid"
  by (simp_all add: Fine_findById_def db_paid_def markAsPaid_def)

lemma markLost_fields:
  "i < length (borrows s) \<Longrightarrow>
   borrows (Borrow_markLost s i now) =
     (borrows s)[i := (borrows s ! i)\<lparr>isLost := True, lostAt := Some now,
                                     borrow_status := Completed\<rparr>]"
  "users (Borrow_markLost s i now) = users s"
  "fines (Borrow_markLost s i now) = fines s"
  by (simp_all add: Borrow_markLost_def)

lemma send_channels_error: "send_channels d u cs = Inl e \<Longrightarrow> e = DeliveryError"
  by (induction cs arbitrary: e) (auto split: option.splits sum.splits if_splits)

lemma sendNotification_error: "sendNotification d u cs = Inl e \<Longrightarrow> e = DeliveryError"
  by (auto simp add: sendNotification_def dest: send_channels_error split: if_splits)

lemma payFine_rejects_iff:
  assumes "Fine_findById s k = Some f"
  shows "fst (payFine d now s k staff) = Inl AlreadyPaid \<longleftrightarrow> fine_status f = Paid"
proof (cases "fine_status f = Paid")
  case True
  with payFine_closed [OF assms True] show ?thesis by simp
next
  case False
  have "e \<noteq> AlreadyPaid" if "sendNotification d u [Email] = Inl e" for u e
    using sendNotification_error [OF that] by (simp add: AlreadyPaid_def)
  with False show ?thesis
    by (auto simp add: payFine_open [OF assms False] AlreadyPaid_def
        split: option.splits sum.splits)
qed

lemma db_waived_find:
  "Fine_findById db_waived 0 = Some (waiveFine_method fine0 (jan_2024 6) 7 ''first offence'')"
  "fine_status (waiveFine_method fine0 (jan_2024 6) 7 ''first offence'') = Waived"
  "users db_waived (fine_user (waiveFine_method fine0 (jan_2024 6) 7 ''first offence''))
     = Some member0"
  by (simp_all add: Fine_findById_def db_waived_def waiveFine_method_def fine0_def)

lemma email_member0: "sendNotification all_ok member0 [Email] = Inr [(Email, Sent)]"
  by (simp add: sendNotification_def try_channel_def all_ok_def member0_simps)

subsection \<open>Balance conservation\<close>

text \<open>
  Claim C6. Whenever \<^verbatim>\<open>createOverdueFine\<close> has stored a fine \<open>f\<close> (it then has
  incremented the user's \<open>fineBalance\<close> by the amount of \<open>f\<close>, whatever it returned or
  threw afterwards), \<^verbatim>\<open>payFine\<close> as well as \<^verbatim>\<open>waiveFine\<close> on \<open>f\<close> brings the balance
  back to the value it had before the fine, whatever the notifications of the payment
  or the waiver do. (Arithmetic is exact in the model.)
\<close>

theorem C6_balance_conservation:
  assumes "createOverdueFine d now s i = (r, s1)" and "fines s1 \<noteq> fines s"
  shows "\<exists>f u. fines s1 = fines s @ [f] \<and> fine_id f = length (fines s)
           \<and> users s (fine_user f) = Some u
           \<and> map_option fineBalance (users s1 (fine_user f)) = Some (fineBalance u + amount f)
           \<and> map_option fineBalance
                (users (snd (payFine d2 now2 s1 (fine_id f) staff)) (fine_user f))
               = Some (fineBalance u)
           \<and> map_option fineBalance
                (users (snd (waiveFine d3 now3 s1 (fine_id f) staff reason)) (fine_user f))
               = Some (fineBalance u)"
  using assms
proof (cases rule: written_fine)
  case (1 f u e)
  have fb: "Fine_findById s1 (fine_id f) = Some f" "fine_status f \<noteq> Paid"
    using 1 by (simp_all add: Fine_findById_def)
  have u1: "users (Fine_save s1 (fine_id f) g) (fine_user f)
            = Some (u\<lparr>fineBalance := fineBalance u + amount f\<rparr>)" for g
    using 1 by (simp add: save_fields)
  have "map_option fineBalance (users s1 (fine_user f)) = Some (fineBalance u + amount f)"
    "map_option fineBalance
       (users (snd (payFine d2 now2 s1 (fine_id f) staff)) (fine_user f)) = Some (fineBalance u)"
    "map_option fineBalance
       (users (snd (waiveFine d3 now3 s1 (fine_id f) staff reason)) (fine_user f))
      = Some (fineBalance u)"
    using 1(3,4)
    by (simp_all add: payFine_open [OF fb] waiveFine_open [OF fb] save_fields
        inc_users [OF u1] split: sum.splits)
  with 1(1,2,3) show ?thesis by blast
qed

theorem C6_balance_conservation_witness:
  "createOverdueFine all_ok (jan_2024 5) db0 0 = (Inl StrictPopulateError, db1)
   \<and> fines db1 \<noteq> fines db0
   \<and> (\<exists>f u. fines db1 = fines db0 @ [f] \<and> fine_id f = length (fines db0)
           \<and> users db0 (fine_user f) = Some u
           \<and> map_option fineBalance (users db1 (fine_user f)) = Some (fineBalance u + amount f)
           \<and> map_option fineBalance
                (users (snd (payFine all_ok (jan_2024 6) db1 (fine_id f) 7)) (fine_user f))
               = Some (fineBalance u)
           \<and> map_option fineBalance
                (users (snd (waiveFine no_gateway (jan_2024 7) db1 (fine_id f) 7
                               ''first offence'')) (fine_user f))
               = Some (fineBalance u))"
proof -
  have h: "createOverdueFine all_ok (jan_2024 5) db0 0 = (Inl StrictPopulateError, db1)"
    "fines db1 \<noteq> fines db0"
    by (simp_all add: create_db0_jan5_throws db0_fields db1_fields)
  from C6_balance_conservation [OF h] h show ?thesis by simp
qed

subsection \<open>A paid fine is terminal\<close>

text \<open>
  Claim C7. For a fine whose status is \<open>paid\<close>: \<^verbatim>\<open>payFine\<close> fails with
  \<open>AlreadyPaid\<close> and \<^verbatim>\<open>waiveFine\<close> fails with \<open>CannotWaivePaid\<close>, both leaving the
  whole store (the fine and every balance) unchanged; and after any sequence of ledger
  operations the fine document is still the same, so it is never \<open>waived\<close> or
  \<open>pending\<close> again.
\<close>

theorem C7_paid_is_terminal:
  assumes "Fine_findById s k = Some f" and "fine_status f = Paid"
  shows "payFine d now s k staff = (Inl AlreadyPaid, s)
       \<and> waiveFine d' now' s k staff' reason = (Inl CannotWaivePaid, s)
       \<and> Fine_findById (run_ops s xs) k = Some f"
  using payFine_closed [OF assms] waiveFine_closed [OF assms] paid_unchanged [OF assms]
  by simp

theorem C7_paid_is_terminal_witness:
  "Fine_findById db_paid 0 = Some (markAsPaid fine0 (jan_2024 6) 7)
   \<and> fine_status (markAsPaid fine0 (jan_2024 6) 7) = Paid
   \<and> payFine all_ok (jan_2024 8) db_paid 0 7 = (Inl AlreadyPaid, db_paid)
   \<and> waiveFine all_ok (jan_2024 8) db_paid 0 7 ''goodwill'' = (Inl CannotWaivePaid, db_paid)
   \<and> Fine_findById
        (run_ops db_paid
           [WaiveFine all_ok (jan_2024 8) 0 7 ''goodwill'', PayFine all_ok (jan_2024 8) 0 7,
            CreateLostBookFine all_ok (jan_2024 9) 0 None,
            ProcessOverdueFines always_ok (jan_2024 9)]) 0
       = Some (markAsPaid fine0 (jan_2024 6) 7)"
proof -
  note w = C7_paid_is_terminal [OF db_paid_find, where d = all_ok and now = "jan_2024 8"
      and staff = 7 and d' = all_ok and now' = "jan_2024 8" and staff' = 7
      and reason = "''goodwill''"
      and xs = "[WaiveFine all_ok (jan_2024 8) 0 7 ''goodwill'', PayFine all_ok (jan_2024 8) 0 7,
            CreateLostBookFine all_ok (jan_2024 9) 0 None,
            ProcessOverdueFines always_ok (jan_2024 9)]"]
  from w db_paid_find show ?thesis by blast
qed

subsection \<open>The lost-book fine\<close>

text \<open>
  Claim C8. For a loan on a book priced 1000, with no fine of type \<open>lost\<close> and no
  \<open>replacementCost\<close> argument, \<^verbatim>\<open>createLostBookFine\<close> appends a pending fine of
  amount 2000 of type \<open>lost\<close>, sets the loan's \<open>isLost\<close> to true and its status to
  \<open>completed\<close>, and increments the user's balance by 2000. What the call returns is
  decided by the fine notice, which undoes none of this.
\<close>

theorem C8_lost_book_fine:
  assumes "Borrow_findById s i = Some b"
    and "books s (borrow_book b) = Some bk"
    and "price bk = 1000"
    and "users s (borrow_user b) = Some u"
    and "Fine_findOne s i Lost = None"
    and "createLostBookFine d now s i None = (r, s')"
  shows "\<exists>doc. fines s' = fines s @ [doc]
           \<and> amount doc = 2000 \<and> fine_type doc = Lost \<and> fine_status doc = Pending
           \<and> fine_borrow doc = i \<and> fine_user doc = borrow_user b
           \<and> Borrow_findById s' i
               = Some (b\<lparr>isLost := True, lostAt := Some now, borrow_status := Completed\<rparr>)
           \<and> users s' (borrow_user b) = Some (u\<lparr>fineBalance := fineBalance u + 2000\<rparr>)
           \<and> r = (case sendFineNotice d doc of Inl e \<Rightarrow> Inl e | Inr x \<Rightarrow> Inr doc)"
proof -
  let ?data = "lost_fine_data now i b 1000 2000"
  let ?doc = "?data\<lparr>fine_id := length (fines s)\<rparr>"
  have v: "lost_book_value s b None = Some 1000"
    using assms(2,3) by (simp add: lost_book_value_def)
  have m: "lostBookMultiplier defaultConfig = 2" by (simp add: defaultConfig_def)
  have ok: "Fine_valid ?data"
    by (simp add: Fine_valid_def lost_fine_data_def new_fine_def)
  have il: "i < length (borrows s)" and bi: "borrows s ! i = b"
    using assms(1) by (auto simp add: Borrow_findById_def split: if_splits)
  let ?s1 = "s\<lparr>fines := fines s @ [?doc]\<rparr>"
  let ?s3 = "User_inc_fineBalance (Borrow_markLost ?s1 i now) (borrow_user b) 2000"
  have res: "createLostBookFine d now s i None =
      (case sendFineNotice d ?doc of Inl e \<Rightarrow> Inl e | Inr x \<Rightarrow> Inr ?doc, ?s3)"
    using assms(1,4,5) v m ok
    by (simp add: createLostBookFine_def Let_def Fine_create_cases split: sum.splits)
  have u3: "users (Borrow_markLost ?s1 i now) (borrow_user b) = Some u"
    using assms(4) by (simp add: markLost_fields)
  have "fines ?s3 = fines s @ [?doc]"
    by (simp add: User_inc_fineBalance_def markLost_fields split: option.splits)
  moreover have "Borrow_findById ?s3 i
      = Some (b\<lparr>isLost := True, lostAt := Some now, borrow_status := Completed\<rparr>)"
    using il bi
    by (simp add: Borrow_findById_def User_inc_fineBalance_def markLost_fields
        split: option.splits)
  moreover have "users ?s3 (borrow_user b) = Some (u\<lparr>fineBalance := fineBalance u + 2000\<rparr>)"
    by (simp add: inc_users [OF u3])
  moreover have "amount ?doc = 2000" "fine_type ?doc = Lost" "fine_status ?doc = Pending"
    "fine_borrow ?doc = i" "fine_user ?doc = borrow_user b"
    by (simp_all add: lost_fine_data_def new_fine_def)
  ultimately show ?thesis
    using assms(6) res by (intro exI [of _ ?doc]) auto
qed

theorem C8_lost_book_fine_witness:
  "Borrow_findById db0 0 = Some loan0
   \<and> books db0 (borrow_book loan0) = Some \<lparr>title = ''Kifo Kisimani'', price = 1000\<rparr>
   \<and> price \<lparr>title = ''Kifo Kisimani'', price = 1000\<rparr> = 1000
   \<and> users db0 (borrow_user loan0) = Some member0
   \<and> Fine_findOne db0 0 Lost = None
   \<and> (\<exists>doc. fines (snd (createLostBookFine all_ok (jan_2024 6) db0 0 None)) = fines db0 @ [doc]
           \<and> amount doc = 2000 \<and> fine_type doc = Lost \<and> fine_status doc = Pending
           \<and> fine_borrow doc = 0 \<and> fine_user doc = borrow_user loan0
           \<and> Borrow_findById (snd (createLostBookFine all_ok (jan_2024 6) db0 0 None)) 0
               = Some (loan0\<lparr>isLost := True, lostAt := Some (jan_2024 6),
                             borrow_status := Completed\<rparr>)
           \<and> users (snd (createLostBookFine all_ok (jan_2024 6) db0 0 None)) (borrow_user loan0)
               = Some (member0\<lparr>fineBalance := fineBalance member0 + 2000\<rparr>)
           \<and> fst (createLostBookFine all_ok (jan_2024 6) db0 0 None)
               = (case sendFineNotice all_ok doc of Inl e \<Rightarrow> Inl e | Inr x \<Rightarrow> Inr doc))"
proof -
  have h: "Borrow_findById db0 0 = Some loan0"
    "books db0 (borrow_book loan0) = Some \<lparr>title = ''Kifo Kisimani'', price = 1000\<rparr>"
    "price \<lparr>title = ''Kifo Kisimani'', price = 1000\<rparr> = 1000"
    "users db0 (borrow_user loan0) = Some member0"
    "Fine_findOne db0 0 Lost = None"
    by (simp_all add: db0_find db0_fields loan0_simps Fine_findOne_def)
  have p: "createLostBookFine all_ok (jan_2024 6) db0 0 None
      = (fst (createLostBookFine all_ok (jan_2024 6) db0 0 None),
         snd (createLostBookFine all_ok (jan_2024 6) db0 0 None))"
    by simp
  from C8_lost_book_fine [OF h p] h show ?thesis by blast
qed

subsection \<open>A failing fine notice\<close>

text \<open>
  Claim C9 says that a failing notification does not fail \<^verbatim>\<open>createOverdueFine\<close>.
  The code at a failing input, with every service available: the fine is stored and
  the balance incremented, then \<^verbatim>\<open>sendFineNotice\<close> throws (its third \<^verbatim>\<open>populate\<close>
  asks a fine for a \<^verbatim>\<open>book\<close>) and rethrows, and \<^verbatim>\<open>createOverdueFine\<close> rethrows in
  turn; the sweep catches the error and does not count the loan. The same happens with
  another error when the database does not answer the first \<^verbatim>\<open>populate\<close>.
\<close>

theorem C9_notice_failure_surfaces:
  "sendFineNotice all_ok fine0 = Inl StrictPopulateError
   \<and> createOverdueFine all_ok (jan_2024 5) db0 0 = (Inl StrictPopulateError, db1)
   \<and> fines db1 = [fine0]
   \<and> map_option fineBalance (users db1 0) = Some 100
   \<and> processOverdueFines always_ok (jan_2024 5) db0
       = (\<lparr>processedCount = 0, totalOverdue = 1\<rparr>, db1)
   \<and> createOverdueFine no_populate (jan_2024 5) db0 0 = (Inl DeliveryError, db1)"
  by (simp add: create_db0_jan5_throws sweep_db0_jan5 notice_fine0 db1_fields)

subsection \<open>Paying a waived fine\<close>

text \<open>
  Claim C10. (1) For an existing fine \<^verbatim>\<open>payFine\<close> fails with \<open>AlreadyPaid\<close> exactly
  when the status is \<open>paid\<close>. (2) On a fine whose status is \<open>waived\<close> (its user
  present, the confirmation delivered) it succeeds, the fine becomes \<open>paid\<close> and the
  balance is decremented by the amount. (3) Whenever \<^verbatim>\<open>createOverdueFine\<close> has stored
  a fine, then \<^verbatim>\<open>waiveFine\<close> and then \<^verbatim>\<open>payFine\<close> are run on it: the waiver leaves
  the fine \<open>waived\<close> and the balance at its pre-fine value, the payment is not rejected
  with \<open>AlreadyPaid\<close>, leaves the fine \<open>paid\<close> and the balance below its pre-fine
  value, by the amount.
\<close>

theorem C10_pay_waived_fine:
  "(Fine_findById s k = Some f
      \<longrightarrow> (fst (payFine d now s k staff) = Inl AlreadyPaid \<longleftrightarrow> fine_status f = Paid))
   \<and> (Fine_findById s k = Some f \<and> fine_status f = Waived
        \<and> users s (fine_user f) = Some u \<and> sendNotification d u [Email] = Inr x
      \<longrightarrow> fst (payFine d now s k staff) = Inr (markAsPaid f now staff)
          \<and> Fine_findById (snd (payFine d now s k staff)) k = Some (markAsPaid f now staff)
          \<and> fine_status (markAsPaid f now staff) = Paid
          \<and> users (snd (payFine d now s k staff)) (fine_user f)
              = Some (u\<lparr>fineBalance := fineBalance u - amount f\<rparr>))
   \<and> (createOverdueFine d0 now0 s0 i = (r0, s1) \<and> fines s1 \<noteq> fines s0
        \<and> s2 = snd (waiveFine d1 now1 s1 (length (fines s0)) staff1 reason)
        \<and> s3 = snd (payFine d2 now2 s2 (length (fines s0)) staff2)
      \<longrightarrow> (\<exists>g v. fines s1 = fines s0 @ [g]
               \<and> users s0 (fine_user g) = Some v
               \<and> map_option fine_status (Fine_findById s2 (length (fines s0))) = Some Waived
               \<and> map_option fineBalance (users s2 (fine_user g)) = Some (fineBalance v)
               \<and> fst (payFine d2 now2 s2 (length (fines s0)) staff2) \<noteq> Inl AlreadyPaid
               \<and> map_option fine_status (Fine_findById s3 (length (fines s0))) = Some Paid
               \<and> map_option fineBalance (users s3 (fine_user g))
                   = Some (fineBalance v - amount g)
               \<and> fineBalance v - amount g < fineBalance v))"
proof (intro conjI impI)
  assume "Fine_findById s k = Some f"
  then show "fst (payFine d now s k staff) = Inl AlreadyPaid \<longleftrightarrow> fine_status f = Paid"
    by (rule payFine_rejects_iff)
next
  assume h: "Fine_findById s k = Some f \<and> fine_status f = Waived
        \<and> users s (fine_user f) = Some u \<and> sendNotification d u [Email] = Inr x"
  then have fb: "Fine_findById s k = Some f" "fine_status f \<noteq> Paid" by simp_all
  have kl: "k < length (fines s)"
    using fb(1) by (simp add: Fine_findById_def split: if_splits)
  have us: "users (Fine_save s k g) (fine_user f) = Some u" for g
    using h by (simp add: save_fields)
  show "fst (payFine d now s k staff) = Inr (markAsPaid f now staff)"
    using h by (simp add: payFine_open [OF fb])
  show "Fine_findById (snd (payFine d now s k staff)) k = Some (markAsPaid f now staff)"
    using h kl
    by (simp add: payFine_open [OF fb] Fine_findById_def User_inc_fineBalance_def save_fields)
  show "fine_status (markAsPaid f now staff) = Paid" by (simp add: markAsPaid_def)
  show "users (snd (payFine d now s k staff)) (fine_user f)
              = Some (u\<lparr>fineBalance := fineBalance u - amount f\<rparr>)"
    using h by (simp add: payFine_open [OF fb] inc_users [OF us])
next
  assume h: "createOverdueFine d0 now0 s0 i = (r0, s1) \<and> fines s1 \<noteq> fines s0
        \<and> s2 = snd (waiveFine d1 now1 s1 (length (fines s0)) staff1 reason)
        \<and> s3 = snd (payFine d2 now2 s2 (length (fines s0)) staff2)"
  then have c: "createOverdueFine d0 now0 s0 i = (r0, s1)" "fines s1 \<noteq> fines s0"
    by simp_all
  let ?k = "length (fines s0)"
  from c show "\<exists>g v. fines s1 = fines s0 @ [g]
               \<and> users s0 (fine_user g) = Some v
               \<and> map_option fine_status (Fine_findById s2 ?k) = Some Waived
               \<and> map_option fineBalance (users s2 (fine_user g)) = Some (fineBalance v)
               \<and> fst (payFine d2 now2 s2 ?k staff2) \<noteq> Inl AlreadyPaid
               \<and> map_option fine_status (Fine_findById s3 ?k) = Some Paid
               \<and> map_option fineBalance (users s3 (fine_user g))
                   = Some (fineBalance v - amount g)
               \<and> fineBalance v - amount g < fineBalance v"
  proof (cases rule: written_fine)
    case (1 g v e)
    let ?w = "waiveFine_method g now1 staff1 reason"
    let ?p = "markAsPaid ?w now2 staff2"
    have fb: "Fine_findById s1 ?k = Some g" "fine_status g \<noteq> Paid"
      using 1(1,5) by (simp_all add: Fine_findById_def)
    have u1: "users (Fine_save s1 ?k ?w) (fine_user g)
            = Some (v\<lparr>fineBalance := fineBalance v + amount g\<rparr>)"
      using 1(4) by (simp add: save_fields)
    have "snd (waiveFine d1 now1 s1 ?k staff1 reason)
        = User_inc_fineBalance (Fine_save s1 ?k ?w) (fine_user g) (- amount g)"
      using 1(4) by (simp add: waiveFine_open [OF fb] split: sum.splits)
    with h have s2: "s2 = User_inc_fineBalance (Fine_save s1 ?k ?w) (fine_user g) (- amount g)"
      by simp
    have us2: "users s2 (fine_user g) = Some v"
      by (simp add: s2 inc_users [OF u1])
    have fb2: "Fine_findById s2 ?k = Some ?w" "fine_status ?w \<noteq> Paid"
      "fine_status ?w = Waived"
      using 1(1) by (simp_all add: s2 Fine_findById_def User_inc_fineBalance_def save_fields
          waiveFine_method_def split: option.splits)
    have fw: "fine_user ?w = fine_user g" "amount ?w = amount g"
      by (simp_all add: waiveFine_method_def)
    have u2: "users (Fine_save s2 ?k p) (fine_user ?w) = Some v" for p
      using us2 by (simp add: save_fields fw)
    have s3: "snd (payFine d2 now2 s2 ?k staff2)
        = User_inc_fineBalance (Fine_save s2 ?k ?p) (fine_user g) (- amount g)"
      using us2 by (simp add: payFine_open [OF fb2(1,2)] fw split: sum.splits)
    have "users (snd (payFine d2 now2 s2 ?k staff2)) (fine_user g)
        = Some (v\<lparr>fineBalance := fineBalance v - amount g\<rparr>)"
      by (simp add: s3 inc_users [OF u2 [unfolded fw]])
    with h have us3: "users s3 (fine_user g)
        = Some (v\<lparr>fineBalance := fineBalance v - amount g\<rparr>)"
      by simp
    have kl: "?k < length (fines s2)"
      using fb2(1) by (simp add: Fine_findById_def split: if_splits)
    have "Fine_findById (snd (payFine d2 now2 s2 ?k staff2)) ?k = Some ?p"
      using kl by (simp add: s3 Fine_findById_def User_inc_fineBalance_def save_fields
          split: option.splits)
    with h have f3: "map_option fine_status (Fine_findById s3 ?k) = Some Paid"
      by (simp add: markAsPaid_def)
    have np: "fst (payFine d2 now2 s2 ?k staff2) \<noteq> Inl AlreadyPaid"
      using payFine_rejects_iff [OF fb2(1)] fb2(2) by simp
    from 1(1,3,6) us2 us3 fb2 f3 np show ?thesis by auto
  qed
qed

theorem C10_pay_waived_fine_witness:
  "Fine_findById db_waived 0 = Some (waiveFine_method fine0 (jan_2024 6) 7 ''first offence'')
   \<and> fine_status (waiveFine_method fine0 (jan_2024 6) 7 ''first offence'') = Waived
   \<and> users db_waived (fine_user (waiveFine_method fine0 (jan_2024 6) 7 ''first offence''))
       = Some member0
   \<and> sendNotification all_ok member0 [Email] = Inr [(Email, Sent)]
   \<and> fst (payFine all_ok (jan_2024 8) db_waived 0 7) \<noteq> Inl AlreadyPaid
   \<and> fst (payFine all_ok (jan_2024 8) db_waived 0 7)
       = Inr (markAsPaid (waiveFine_method fine0 (jan_2024 6) 7 ''first offence'') (jan_2024 8) 7)
   \<and> users (snd (payFine all_ok (jan_2024 8) db_waived 0 7))
         (fine_user (waiveFine_method fine0 (jan_2024 6) 7 ''first offence''))
       = Some (member0\<lparr>fineBalance := fineBalance member0
                 - amount (waiveFine_method fine0 (jan_2024 6) 7 ''first offence'')\<rparr>)
   \<and> createOverdueFine all_ok (jan_2024 5) db0 0 = (Inl StrictPopulateError, db1)
   \<and> fines db1 \<noteq> fines db0
   \<and> (\<exists>g v. fines db1 = fines db0 @ [g] \<and> users db0 (fine_user g) = Some v
          \<and> map_option fineBalance
               (users (snd (payFine all_ok (jan_2024 8)
                      (snd (waiveFine all_ok (jan_2024 6) db1 (length (fines db0)) 7
                             ''first offence''))
                      (length (fines db0)) 7)) (fine_user g))
              = Some (fineBalance v - amount g)
          \<and> fineBalance v - amount g < fineBalance v)"
proof -
  have c: "createOverdueFine all_ok (jan_2024 5) db0 0 = (Inl StrictPopulateError, db1)"
    "fines db1 \<noteq> fines db0"
    by (simp_all add: create_db0_jan5_throws db0_fields db1_fields)
  note w = C10_pay_waived_fine [where s = db_waived and k = 0
      and f = "waiveFine_method fine0 (jan_2024 6) 7 ''first offence''"
      and d = all_ok and now = "jan_2024 8" and staff = 7 and u = member0
      and x = "[(Email, Sent)]"
      and ?d0.0 = all_ok and ?now0.0 = "jan_2024 5" and ?s0.0 = db0 and i = 0
      and ?r0.0 = "Inl StrictPopulateError" and ?s1.0 = db1
      and ?s2.0 = "snd (waiveFine all_ok (jan_2024 6) db1 (length (fines db0)) 7
                          ''first offence'')"
      and ?d1.0 = all_ok and ?now1.0 = "jan_2024 6" and ?staff1.0 = 7
      and reason = "''first offence''"
      and ?s3.0 = "snd (payFine all_ok (jan_2024 8)
                      (snd (waiveFine all_ok (jan_2024 6) db1 (length (fines db0)) 7
                             ''first offence''))
                      (length (fines db0)) 7)"
      and ?d2.0 = all_ok and ?now2.0 = "jan_2024 8" and ?staff2.0 = 7]
  have nw: "Waived \<noteq> Paid" by simp
  from w db_waived_find email_member0 c nw show ?thesis by metis
qed

end
